theory Spec2Isabelle
  imports Main
begin

section \<open>The layered configuration builder of fulcrumproject/utils (package confbuilder)\<close>

text \<open>
  The development embeds \<^verbatim>\<open>src/confbuilder/builder.go\<close>: the builder and its
  \<^verbatim>\<open>Build\<close> pipeline, the recursive environment overlay \<^verbatim>\<open>loadEnvToStruct\<close> and the
  ancestor search \<^verbatim>\<open>loadEnvFromAncestors\<close>.

  Values are the values reflection sees: a value carries its dynamic type, so the kind
  the source switches on is the constructor of the value. Strings are byte strings.
  The process environment, the working directory and the files are explicit state.
  Functions of the standard library and of third-party packages that the source calls
  and whose grammar is not the subject here (durations, log levels, floats,
  upper-casing, JSON decoding, validation rules) are parameters, collected in the
  record \<open>lib\<close>; the small ones (integer and boolean parsing, splitting, trimming) are
  written out.
\<close>

subsection \<open>Reflected values\<close>

text \<open>\<^verbatim>\<open>reflect.StructTag\<close> as its key/value pairs; \<^verbatim>\<open>Lookup\<close> finds the first pair of a key.\<close>

type_synonym StructTag = "(string \<times> string) list"

definition Lookup :: "StructTag \<Rightarrow> string \<Rightarrow> string option" where
  "Lookup t key = map_of t key"

text \<open>
  \<^verbatim>\<open>reflect.StructField\<close>, as far as the source reads it. \<open>exported\<close> is what
  \<^verbatim>\<open>fieldValue.CanSet()\<close> returns: the struct is always reached through a pointer, so a field
  can be set exactly when it is exported.
\<close>

record StructField =
  Name :: string
  exported :: bool
  Tag :: StructTag

datatype intkind = KInt | KInt8 | KInt16 | KInt32 | KInt64

datatype uintkind = KUint | KUint8 | KUint16 | KUint32 | KUint64

datatype floatkind = KFloat32 | KFloat64

text \<open>A float is held as its IEEE-754 bit pattern; no arithmetic on floats is needed.\<close>

type_synonym float64 = nat

text \<open>
  A value with its type. \<open>VDuration\<close> is a field of type \<^verbatim>\<open>time.Duration\<close> (kind Int64,
  nanoseconds) and \<open>VLevel\<close> one of type \<^verbatim>\<open>slog.Level\<close> (kind Int); \<open>VInt k\<close> is any
  other type of a signed integer kind and \<open>VUint k\<close> of an unsigned one (\<^verbatim>\<open>uintptr\<close> is not
  among the kinds the source handles). \<open>VStrings\<close> is a \<^verbatim>\<open>[]string\<close> (or a defined type
  whose underlying type that is), \<open>VNamedStrings T\<close> a slice whose element type is a
  defined type \<open>T\<close> of kind String (such as \<^verbatim>\<open>[]Role\<close> with \<^verbatim>\<open>type Role string\<close>),
  \<open>VStruct\<close> a struct with its fields in declaration order, and \<open>VOther\<close> a value of any
  other type (pointer, map, slice of elements that are not of kind String, ...), whose
  content the source never touches and which is held as an opaque rendering.
\<close>

datatype val =
    VString string
  | VInt intkind int
  | VDuration int
  | VLevel int
  | VUint uintkind nat
  | VFloat floatkind float64
  | VBool bool
  | VStrings "string list"
  | VNamedStrings string "string list"
  | VStruct "(StructField \<times> val) list"
  | VOther string

type_synonym fields = "(StructField \<times> val) list"

text \<open>Bit widths; \<^verbatim>\<open>int\<close> and \<^verbatim>\<open>uint\<close> are 64 bits wide (a 64-bit platform).\<close>

fun int_bits :: "intkind \<Rightarrow> nat" where
  "int_bits KInt = 64"
| "int_bits KInt8 = 8"
| "int_bits KInt16 = 16"
| "int_bits KInt32 = 32"
| "int_bits KInt64 = 64"

fun uint_bits :: "uintkind \<Rightarrow> nat" where
  "uint_bits KUint = 64"
| "uint_bits KUint8 = 8"
| "uint_bits KUint16 = 16"
| "uint_bits KUint32 = 32"
| "uint_bits KUint64 = 64"

text \<open>
  \<^verbatim>\<open>reflect.Value.SetInt(x)\<close> stores \<^verbatim>\<open>int8(x)\<close>, \<^verbatim>\<open>int16(x)\<close>, ... according to the kind:
  a Go conversion between integer types, which keeps the low-order bits (two's
  complement). \<^verbatim>\<open>SetUint\<close> likewise. Neither checks for overflow.
\<close>

definition truncate_signed :: "nat \<Rightarrow> int \<Rightarrow> int" where
  "truncate_signed w x = (x + 2 ^ (w - 1)) mod 2 ^ w - 2 ^ (w - 1)"

definition truncate_unsigned :: "nat \<Rightarrow> nat \<Rightarrow> nat" where
  "truncate_unsigned w x = x mod 2 ^ w"

definition SetInt :: "intkind \<Rightarrow> int \<Rightarrow> val" where
  "SetInt k x = VInt k (truncate_signed (int_bits k) x)"

definition SetUint :: "uintkind \<Rightarrow> nat \<Rightarrow> val" where
  "SetUint k x = VUint k (truncate_unsigned (uint_bits k) x)"

subsection \<open>Strings: the functions of \<^verbatim>\<open>strings\<close> and \<^verbatim>\<open>strconv\<close> the source calls\<close>

text \<open>\<^verbatim>\<open>strings.Split(s, sep)\<close> for a separator of one byte.\<close>

fun Split :: "string \<Rightarrow> char \<Rightarrow> string list" where
  "Split [] sep = [[]]"
| "Split (c # cs) sep =
     (if c = sep then [] # Split cs sep
      else (case Split cs sep of [] \<Rightarrow> [[c]] | p # ps \<Rightarrow> (c # p) # ps))"

text \<open>
  The runes for which \<^verbatim>\<open>unicode.IsSpace\<close> holds, each as its UTF-8 encoding: tab, line
  feed, vertical tab, form feed, carriage return, space, U+0085, U+00A0, U+1680,
  U+2000 to U+200A, U+2028, U+2029, U+202F, U+205F and U+3000.
\<close>

definition whiteSpace :: "string list" where
  "whiteSpace =
     [[CHR 0x09], [CHR 0x0A], [CHR 0x0B], [CHR 0x0C], [CHR 0x0D], [CHR 0x20],
      [CHR 0xC2, CHR 0x85], [CHR 0xC2, CHR 0xA0],
      [CHR 0xE1, CHR 0x9A, CHR 0x80],
      [CHR 0xE2, CHR 0x80, CHR 0x80], [CHR 0xE2, CHR 0x80, CHR 0x81], [CHR 0xE2, CHR 0x80, CHR 0x82],
      [CHR 0xE2, CHR 0x80, CHR 0x83], [CHR 0xE2, CHR 0x80, CHR 0x84], [CHR 0xE2, CHR 0x80, CHR 0x85],
      [CHR 0xE2, CHR 0x80, CHR 0x86], [CHR 0xE2, CHR 0x80, CHR 0x87], [CHR 0xE2, CHR 0x80, CHR 0x88],
      [CHR 0xE2, CHR 0x80, CHR 0x89], [CHR 0xE2, CHR 0x80, CHR 0x8A],
      [CHR 0xE2, CHR 0x80, CHR 0xA8], [CHR 0xE2, CHR 0x80, CHR 0xA9], [CHR 0xE2, CHR 0x80, CHR 0xAF],
      [CHR 0xE2, CHR 0x81, CHR 0x9F],
      [CHR 0xE3, CHR 0x80, CHR 0x80]]"

text \<open>\<^verbatim>\<open>strings.HasPrefix\<close> and \<^verbatim>\<open>strings.HasSuffix\<close>.\<close>

definition HasPrefix :: "string \<Rightarrow> string \<Rightarrow> bool" where
  "HasPrefix s w = (take (length w) s = w)"

definition HasSuffix :: "string \<Rightarrow> string \<Rightarrow> bool" where
  "HasSuffix s w = HasPrefix (rev s) (rev w)"

text \<open>
  Removing from the front of a string, again and again, whichever of the words \<open>ws\<close>
  it starts with. With the encodings above this is \<^verbatim>\<open>strings.TrimLeftFunc(s,
  unicode.IsSpace)\<close>: the first rune that \<^verbatim>\<open>utf8.DecodeRuneInString\<close> reads is a white-space
  rune exactly when the string starts with that rune's encoding (a byte sequence that
  is not valid UTF-8 decodes to U+FFFD, which is not white space).
\<close>

function TrimLeft :: "string list \<Rightarrow> string \<Rightarrow> string" where
  "TrimLeft ws s =
     (case find (\<lambda>w. w \<noteq> [] \<and> HasPrefix s w) ws of
        None \<Rightarrow> s
      | Some w \<Rightarrow> TrimLeft ws (drop (length w) s))"
  by pat_completeness auto
termination
  apply (relation "measure (\<lambda>(ws, s). length s)")
   apply simp
  apply (auto simp: find_Some_iff HasPrefix_def)
  apply (case_tac s)
   apply auto
  done

text \<open>
  \<^verbatim>\<open>strings.TrimSpace\<close>: white-space runes are removed at the front and then at the end.
  At the end \<^verbatim>\<open>utf8.DecodeLastRuneInString\<close> reads a white-space rune exactly when the
  string ends with that rune's encoding, which is the front of the reversed string
  starting with the reversed encoding.
\<close>

definition TrimSpace :: "string \<Rightarrow> string" where
  "TrimSpace s = rev (TrimLeft (map rev whiteSpace) (rev (TrimLeft whiteSpace s)))"

text \<open>The two errors of \<^verbatim>\<open>strconv\<close>, and \<^verbatim>\<open>*strconv.NumError\<close> with its function and input.\<close>

datatype numerr = ErrSyntax | ErrRange

definition isDigit :: "char \<Rightarrow> bool" where
  "isDigit c = ((48::nat) \<le> of_char c \<and> of_char c \<le> (57::nat))"

text \<open>The digit loop of \<^verbatim>\<open>strconv.ParseUint(s, 10, 64)\<close>, from the value read so far.\<close>

fun parseDigits :: "nat \<Rightarrow> string \<Rightarrow> numerr + nat" where
  "parseDigits n [] = Inr n"
| "parseDigits n (c # cs) =
     (if \<not> isDigit c then Inl ErrSyntax
      else if n * 10 + (of_char c - 48) \<ge> 2 ^ 64 then Inl ErrRange
      else parseDigits (n * 10 + (of_char c - 48)) cs)"

definition ParseUint :: "string \<Rightarrow> numerr + nat" where
  "ParseUint s = (if s = [] then Inl ErrSyntax else parseDigits 0 s)"

text \<open>\<^verbatim>\<open>strconv.ParseInt(s, 10, 64)\<close>: an optional sign, then the digits, then the range.\<close>

definition ParseInt :: "string \<Rightarrow> numerr + int" where
  "ParseInt s =
     (case s of
        [] \<Rightarrow> Inl ErrSyntax
      | c # cs \<Rightarrow>
          (let neg = (c = CHR ''-'');
               s1 = (if c = CHR ''+'' \<or> c = CHR ''-'' then cs else s)
           in case ParseUint s1 of
                Inl e \<Rightarrow> Inl e
              | Inr un \<Rightarrow>
                  if \<not> neg \<and> un \<ge> 2 ^ 63 then Inl ErrRange
                  else if neg \<and> un > 2 ^ 63 then Inl ErrRange
                  else Inr (if neg then - int un else int un)))"

text \<open>\<^verbatim>\<open>strconv.ParseBool\<close>.\<close>

definition ParseBool :: "string \<Rightarrow> numerr + bool" where
  "ParseBool s =
     (if s \<in> set [''1'', ''t'', ''T'', ''TRUE'', ''true'', ''True''] then Inr True
      else if s \<in> set [''0'', ''f'', ''F'', ''FALSE'', ''false'', ''False''] then Inr False
      else Inl ErrSyntax)"

subsection \<open>Errors\<close>

text \<open>
  The cause wrapped by \<^verbatim>\<open>%w\<close>: a \<^verbatim>\<open>*strconv.NumError\<close> (function, input, error), or the error
  of \<^verbatim>\<open>time.ParseDuration\<close>, whose text quotes the input.
\<close>

datatype cause = NumError string string numerr | DurationError string

text \<open>
  One constructor for each \<^verbatim>\<open>fmt.Errorf\<close> of the source, with the arguments it formats.
  \<open>NilPointer\<close>: "cannot load environment variables into nil pointer";
  \<open>InvalidDuration\<close>: "invalid duration value for %s: %w";
  \<open>InvalidSlogLevel\<close>: "invalid slog level value for %s: %s";
  \<open>InvalidInteger\<close>: "invalid integer value for %s: %w";
  \<open>InvalidUnsigned\<close>: "invalid unsigned integer value for %s: %w";
  \<open>InvalidFloat\<close>: "invalid float value for %s: %w";
  \<open>InvalidBool\<close>: "invalid boolean value for %s: %w";
  \<open>SubConfig\<close>: "error loading sub config field %s: %w";
  \<open>CloneFailed\<close>: "failed to clone config: %w";
  \<open>ReadFileFailed\<close>: "failed to read config file: %w";
  \<open>ParseFileFailed\<close>: "failed to parse config file: %w";
  \<open>LoadEnvFailed\<close>: "failed to load environment variables: %w" (around \<open>GetwdFailed\<close>, the
  error of \<^verbatim>\<open>os.Getwd\<close>);
  \<open>OverrideFailed\<close>: "failed to override configuration from environment: %w";
  \<open>InvalidConfiguration\<close>: "invalid configuration: %w".
\<close>

datatype error =
    NilPointer
  | InvalidDuration string cause
  | InvalidSlogLevel string string
  | InvalidInteger string cause
  | InvalidUnsigned string cause
  | InvalidFloat string cause
  | InvalidBool string cause
  | SubConfig string error
  | CloneFailed
  | ReadFileFailed string
  | ParseFileFailed
  | GetwdFailed
  | LoadEnvFailed error
  | OverrideFailed error
  | InvalidConfiguration
  | Panic string

text \<open>
  \<open>Panic\<close> is not an error value that a function returns: it marks a call that panics,
  with the message of the panic. Nothing in the package recovers, so a panic passes
  through every caller as it is, and the caller of \<^verbatim>\<open>Build\<close> receives no result.
\<close>

fun isPanic :: "error \<Rightarrow> bool" where
  "isPanic (Panic msg) = True"
| "isPanic err = False"

subsection \<open>The library functions taken as parameters\<close>

text \<open>
  \<open>ParseDuration\<close>: \<^verbatim>\<open>time.ParseDuration\<close>, the nanoseconds or no result;
  \<open>UnmarshalText\<close>: \<^verbatim>\<open>(*slog.Level).UnmarshalText\<close>, the level or no result;
  \<open>ToUpper\<close>: \<^verbatim>\<open>strings.ToUpper\<close>;
  \<open>ParseFloat\<close>: \<^verbatim>\<open>strconv.ParseFloat(s, 64)\<close>;
  \<open>toFloat32\<close>: the conversion \<^verbatim>\<open>float32(x)\<close> that \<^verbatim>\<open>SetFloat\<close> makes on a Float32;
  \<open>Unmarshal\<close>: \<^verbatim>\<open>json.Unmarshal(data, target)\<close>, the target as it leaves it and whether it
  succeeded;
  \<open>validate\<close>: whether \<^verbatim>\<open>validator.New().Struct(target)\<close> returns no error.
\<close>

record lib =
  ParseDuration :: "string \<Rightarrow> int option"
  UnmarshalText :: "string \<Rightarrow> int option"
  ToUpper :: "string \<Rightarrow> string"
  ParseFloat :: "string \<Rightarrow> numerr + float64"
  toFloat32 :: "float64 \<Rightarrow> float64"
  Unmarshal :: "string \<Rightarrow> fields \<Rightarrow> fields \<times> bool"
  validate :: "fields \<Rightarrow> bool"

subsection \<open>The environment\<close>

type_synonym env = "string \<rightharpoonup> string"

text \<open>\<^verbatim>\<open>os.Getenv\<close>: the value, or the empty string when the variable is not set.\<close>

definition Getenv :: "env \<Rightarrow> string \<Rightarrow> string" where
  "Getenv e key = (case e key of None \<Rightarrow> [] | Some v \<Rightarrow> v)"

subsection \<open>The environment overlay: \<^verbatim>\<open>loadEnvToStruct\<close>\<close>

text \<open>
  The switch on the field's kind (lines 196 to 255): the value the case sets the field
  to, or the error returned. A field of a kind without a case keeps its value. The
  slice case is entered by the kind of the element type (line 247), so also for a slice
  of a defined string type; the value it hands to \<^verbatim>\<open>fieldValue.Set\<close> is a \<^verbatim>\<open>[]string\<close> in
  either case, and whether the field accepts it is decided by \<open>reflect_Set\<close> below.
\<close>

fun setFieldValue :: "lib \<Rightarrow> string \<Rightarrow> string \<Rightarrow> val \<Rightarrow> error + val" where
  "setFieldValue L envVar envValue (VString _) = Inr (VString envValue)"
| "setFieldValue L envVar envValue (VDuration d) =
     (case ParseDuration L envValue of
        None \<Rightarrow> Inl (InvalidDuration envVar (DurationError envValue))
      | Some duration \<Rightarrow> Inr (VDuration duration))"
| "setFieldValue L envVar envValue (VLevel l) =
     (case UnmarshalText L (ToUpper L envValue) of
        None \<Rightarrow> Inl (InvalidSlogLevel envVar envValue)
      | Some level \<Rightarrow> Inr (VLevel level))"
| "setFieldValue L envVar envValue (VInt k i) =
     (case ParseInt envValue of
        Inl e \<Rightarrow> Inl (InvalidInteger envVar (NumError ''ParseInt'' envValue e))
      | Inr x \<Rightarrow> Inr (SetInt k x))"
| "setFieldValue L envVar envValue (VUint k u) =
     (case ParseUint envValue of
        Inl e \<Rightarrow> Inl (InvalidUnsigned envVar (NumError ''ParseUint'' envValue e))
      | Inr x \<Rightarrow> Inr (SetUint k x))"
| "setFieldValue L envVar envValue (VFloat k f) =
     (case ParseFloat L envValue of
        Inl e \<Rightarrow> Inl (InvalidFloat envVar (NumError ''ParseFloat'' envValue e))
      | Inr x \<Rightarrow> Inr (VFloat k (case k of KFloat32 \<Rightarrow> toFloat32 L x | KFloat64 \<Rightarrow> x)))"
| "setFieldValue L envVar envValue (VBool b) =
     (case ParseBool envValue of
        Inl e \<Rightarrow> Inl (InvalidBool envVar (NumError ''ParseBool'' envValue e))
      | Inr x \<Rightarrow> Inr (VBool x))"
| "setFieldValue L envVar envValue (VStrings xs) =
     Inr (VStrings (map TrimSpace (Split envValue CHR '','')))"
| "setFieldValue L envVar envValue (VNamedStrings T xs) =
     Inr (VStrings (map TrimSpace (Split envValue CHR '','')))"
| "setFieldValue L envVar envValue (VStruct fs) = Inr (VStruct fs)"
| "setFieldValue L envVar envValue (VOther x) = Inr (VOther x)"

text \<open>
  \<^verbatim>\<open>reflect.Value.Set\<close> of the value \<open>x\<close> on a field: it panics when the value is not
  assignable to the field's type. Every case of the switch sets a value of the field's
  own type, except the slice case on a slice of a defined string type: a \<^verbatim>\<open>[]string\<close>
  is not assignable to a \<^verbatim>\<open>[]T\<close>.
\<close>

fun reflect_Set :: "val \<Rightarrow> val \<Rightarrow> error + val" where
  "reflect_Set (VNamedStrings T xs) x =
     Inl (Panic (''reflect.Set: value of type []string is not assignable to type []'' @ T))"
| "reflect_Set field x = Inr x"


text \<open>The name looked up for a field with tag \<open>envVar\<close> (lines 181 to 187).\<close>

definition fullEnvVar :: "string \<Rightarrow> string \<Rightarrow> string" where
  "fullEnvVar parentEnvPath envVar =
     (if parentEnvPath = [] then envVar else parentEnvPath @ ''_'' @ envVar)"

text \<open>The path handed down into a struct field (lines 158 to 168).\<close>

definition newEnvPath :: "string \<Rightarrow> string \<Rightarrow> StructField \<Rightarrow> string" where
  "newEnvPath tag parentEnvPath field =
     (case Lookup (Tag field) tag of
        None \<Rightarrow> parentEnvPath
      | Some fieldEnvTag \<Rightarrow>
          if fieldEnvTag \<noteq> [] then
            (if parentEnvPath = [] then fieldEnvTag else parentEnvPath @ ''_'' @ fieldEnvTag)
          else parentEnvPath)"

text \<open>
  The second half of the loop body (lines 176 to 255): the tag, the environment lookup
  and the switch. The result is the field's value after it, or the error returned, or
  the panic of \<^verbatim>\<open>fieldValue.Set\<close>.
\<close>

definition overlayField ::
  "lib \<Rightarrow> env \<Rightarrow> string \<Rightarrow> string \<Rightarrow> string \<Rightarrow> StructField \<Rightarrow> val \<Rightarrow> error + val" where
  "overlayField L e prefix tag parentEnvPath field v =
     (case Lookup (Tag field) tag of
        None \<Rightarrow> Inr v
      | Some envVar \<Rightarrow>
          if envVar = [] then Inr v
          else (let envValue = Getenv e (prefix @ fullEnvVar parentEnvPath envVar)
                in if envValue = [] then Inr v
                   else (case setFieldValue L envVar envValue v of
                           Inl err \<Rightarrow> Inl err
                         | Inr x \<Rightarrow> reflect_Set v x)))"

text \<open>
  \<^verbatim>\<open>loadEnvToStruct\<close> on the fields of the struct the target points to: \<^verbatim>\<open>Build\<close> passes a
  pointer it has allocated and the recursion passes the address of a field, so the
  pointer that lines 134 to 139 follow is never nil. The loop over the
  fields is the recursion on the list; the struct is changed in place, so the result is
  the struct as the call leaves it, together with the error it returns: after an error
  the fields before the failing one keep what was set. A field of kind Struct is never
  of type \<^verbatim>\<open>time.Duration\<close> (whose kind is Int64), so the test of line 156 always holds.
\<close>

function (sequential) loadEnvToStruct ::
  "lib \<Rightarrow> env \<Rightarrow> string \<Rightarrow> string \<Rightarrow> string \<Rightarrow> fields \<Rightarrow> fields \<times> error option" where
  "loadEnvToStruct L e prefix tag parentEnvPath [] = ([], None)"
| "loadEnvToStruct L e prefix tag parentEnvPath ((field, v) # rest) =
     (if \<not> exported field then
        (case loadEnvToStruct L e prefix tag parentEnvPath rest of
           (rest', err) \<Rightarrow> ((field, v) # rest', err))
      else
        (case (case v of
                 VStruct sub \<Rightarrow>
                   (case loadEnvToStruct L e prefix tag (newEnvPath tag parentEnvPath field) sub of
                      (sub', err) \<Rightarrow> (VStruct sub', err))
               | _ \<Rightarrow> (v, None)) of
           (v1, Some err) \<Rightarrow>
             ((field, v1) # rest, Some (if isPanic err then err else SubConfig (Name field) err))
         | (v1, None) \<Rightarrow>
             (case overlayField L e prefix tag parentEnvPath field v1 of
                Inl err \<Rightarrow> ((field, v1) # rest, Some err)
              | Inr v2 \<Rightarrow>
                  (case loadEnvToStruct L e prefix tag parentEnvPath rest of
                     (rest', err) \<Rightarrow> ((field, v2) # rest', err)))))"
  by pat_completeness auto
termination
  by (relation "measure (\<lambda>(L, e, prefix, tag, parentEnvPath, fs). size_list (size_prod (\<lambda>_. 0) size) fs)") auto

subsection \<open>The ancestor search: \<^verbatim>\<open>loadEnvFromAncestors\<close>\<close>

text \<open>
  What \<^verbatim>\<open>os.Stat\<close> and \<^verbatim>\<open>godotenv.Load\<close> find at a path: nothing (\<^verbatim>\<open>os.Stat\<close> returns an
  error), something \<^verbatim>\<open>godotenv.Load\<close> cannot read or parse, or a file with the variables
  it defines.
\<close>

datatype dotenv = Missing | Unloadable | Parsed env

text \<open>
  The state outside the program. A directory is the list of its path components from
  the root, the root being the empty list; \<open>envFileAt dir fileName\<close> is what lies at
  \<^verbatim>\<open>filepath.Join(dir, fileName)\<close>. \<open>Getwd\<close> and \<open>ReadFile\<close> have no result when
  \<^verbatim>\<open>os.Getwd\<close> and \<^verbatim>\<open>os.ReadFile\<close> return an error.
\<close>

record world =
  environ :: env
  Getwd :: "string list option"
  envFileAt :: "string list \<Rightarrow> string \<Rightarrow> dotenv"
  ReadFile :: "string \<Rightarrow> string option"

text \<open>\<^verbatim>\<open>filepath.Dir\<close>: the parent directory; the root is its own parent.\<close>

definition Dir :: "string list \<Rightarrow> string list" where
  "Dir dir = butlast dir"

text \<open>
  \<^verbatim>\<open>godotenv.Load\<close> of one file that parses to \<open>m\<close>: every variable of \<open>m\<close> that is not in the
  environment yet is set; a variable that is there already keeps its value.
\<close>

definition godotenv_Load :: "env \<Rightarrow> env \<Rightarrow> env" where
  "godotenv_Load m e = m ++ e"

text \<open>
  The inner loop (lines 275 to 284) over the file names, in one directory. The state is
  the environment and the flag \<open>found\<close>.
\<close>

fun tryFiles :: "world \<Rightarrow> string list \<Rightarrow> string list \<Rightarrow> env \<times> bool \<Rightarrow> env \<times> bool" where
  "tryFiles w dir [] s = s"
| "tryFiles w dir (fileName # names) (e, found) =
     (case envFileAt w dir fileName of
        Missing \<Rightarrow> tryFiles w dir names (e, found)
      | Unloadable \<Rightarrow> tryFiles w dir names (e, found)
      | Parsed m \<Rightarrow> tryFiles w dir names (godotenv_Load m e, True))"

text \<open>The outer loop (lines 274 to 292), from \<open>dir\<close> up to the root.\<close>

function ancestorLoop :: "world \<Rightarrow> string list \<Rightarrow> string list \<Rightarrow> env \<times> bool \<Rightarrow> env \<times> bool" where
  "ancestorLoop w filesToTry dir s =
     (let s' = tryFiles w dir filesToTry s;
          parentDir = Dir dir
      in if parentDir = dir then s' else ancestorLoop w filesToTry parentDir s')"
  by pat_completeness auto
termination
  apply (relation "measure (\<lambda>(w, filesToTry, dir, s). length dir)")
   apply simp
  apply (case_tac dir)
   apply (simp_all add: Dir_def)
  done

definition loadEnvFromAncestors :: "world \<Rightarrow> string list \<Rightarrow> env \<Rightarrow> error + env \<times> bool" where
  "loadEnvFromAncestors w filesToTry e =
     (case Getwd w of
        None \<Rightarrow> Inl GetwdFailed
      | Some currentDir \<Rightarrow> Inr (ancestorLoop w filesToTry currentDir (e, False)))"

subsection \<open>The builder and \<^verbatim>\<open>Build\<close>\<close>

text \<open>
  The type parameter \<^verbatim>\<open>T\<close> is a struct type or a pointer to one: a configuration of type
  \<^verbatim>\<open>T\<close> is a struct, or a pointer that is nil or points to a struct.
\<close>

datatype tvalue = ByValue fields | ByPointer "fields option"

record Builder =
  config :: tvalue
  envPrefix :: string
  envTag :: string
  envFiles :: "string list"
  filepath :: "string option"

definition New :: "tvalue \<Rightarrow> Builder" where
  "New defaultConf =
     \<lparr>config = defaultConf, envPrefix = [], envTag = ''env'', envFiles = [], filepath = None\<rparr>"

definition EnvPrefix :: "string \<Rightarrow> Builder \<Rightarrow> Builder" where
  "EnvPrefix prefix b = b\<lparr>envPrefix := prefix\<rparr>"

definition EnvTag :: "string \<Rightarrow> Builder \<Rightarrow> Builder" where
  "EnvTag tag b = b\<lparr>envTag := tag\<rparr>"

definition EnvFiles :: "string list \<Rightarrow> Builder \<Rightarrow> Builder" where
  "EnvFiles files b = b\<lparr>envFiles := files\<rparr>"

definition File :: "string option \<Rightarrow> Builder \<Rightarrow> Builder" where
  "File fp b = b\<lparr>filepath := fp\<rparr>"

text \<open>The zero value of the type of a value.\<close>

fun zero :: "val \<Rightarrow> val" where
  "zero (VString s) = VString []"
| "zero (VInt k i) = VInt k 0"
| "zero (VDuration d) = VDuration 0"
| "zero (VLevel l) = VLevel 0"
| "zero (VUint k u) = VUint k 0"
| "zero (VFloat k f) = VFloat k 0"
| "zero (VBool b) = VBool False"
| "zero (VStrings xs) = VStrings []"
| "zero (VNamedStrings T xs) = VNamedStrings T []"
| "zero (VStruct fs) = VStruct (map (\<lambda>(f, v). (f, zero v)) fs)"
| "zero (VOther x) = VOther []"

definition zeroFields :: "fields \<Rightarrow> fields" where
  "zeroFields fs = map (\<lambda>(f, v). (f, zero v)) fs"

text \<open>
  \<^verbatim>\<open>var config T\<close>: the zero value of \<^verbatim>\<open>T\<close>, which is the nil pointer when \<^verbatim>\<open>T\<close> is a
  pointer type.
\<close>

fun zeroT :: "tvalue \<Rightarrow> tvalue" where
  "zeroT (ByValue s) = ByValue (zeroFields s)"
| "zeroT (ByPointer p) = ByPointer None"

text \<open>
  The struct behind the stored default, if there is one: none exactly when the default
  is a nil pointer (line 71).
\<close>

fun source :: "tvalue \<Rightarrow> fields option" where
  "source (ByValue s) = Some s"
| "source (ByPointer p) = p"

text \<open>
  The variable \<^verbatim>\<open>config\<close> once its struct is \<open>t\<close>: the struct itself, or for a pointer
  type the pointer allocated at line 81, which points to the struct.
\<close>

fun wrap :: "tvalue \<Rightarrow> fields \<Rightarrow> tvalue" where
  "wrap (ByValue s) t = ByValue t"
| "wrap (ByPointer p) t = ByPointer (Some t)"

text \<open>
  \<^verbatim>\<open>copier.Copy(target, b.config)\<close> between two structs of one type: every field of the
  target receives the value of the source's field. On values it has no failure. (What
  the target then shares with the source is the subject of the subsection on slices
  in memory.)
\<close>

definition copier_Copy :: "fields \<Rightarrow> fields \<Rightarrow> fields option" where
  "copier_Copy to from = Some from"

text \<open>The steps of \<^verbatim>\<open>Build\<close>, recorded as they run.\<close>

datatype stage = SClone | SReadFile | SUnmarshal | SEnvFiles | SEnvOverlay | SValidate

text \<open>
  What a call of \<^verbatim>\<open>Build\<close> leaves: the two values it returns, the process environment
  after it, and the steps that ran. When \<open>failure\<close> is a \<open>Panic\<close> the call has not
  returned: \<open>returned\<close> is then what the variable \<^verbatim>\<open>config\<close> held, which the caller never
  receives.
\<close>

record outcome =
  returned :: tvalue
  failure :: "error option"
  environment :: env
  steps :: "stage list"

text \<open>Lines 98 to 108: the file overlay on the target \<open>t\<close>.\<close>

definition fileOverlay ::
  "lib \<Rightarrow> world \<Rightarrow> string option \<Rightarrow> fields \<Rightarrow> fields \<times> error option \<times> stage list" where
  "fileOverlay L w fp t =
     (case fp of
        None \<Rightarrow> (t, None, [])
      | Some path \<Rightarrow>
          if path = [] then (t, None, [])
          else (case ReadFile w path of
                  None \<Rightarrow> (t, Some (ReadFileFailed path), [SReadFile])
                | Some data \<Rightarrow>
                    (case Unmarshal L data t of
                       (t', ok) \<Rightarrow>
                         (t', if ok then None else Some ParseFileFailed, [SReadFile, SUnmarshal]))))"

definition Build :: "lib \<Rightarrow> world \<Rightarrow> Builder \<Rightarrow> outcome" where
  "Build L w b =
     (case source (config b) of
        None \<Rightarrow>
          \<lparr>returned = zeroT (config b), failure = Some NilPointer,
           environment = environ w, steps = []\<rparr>
      | Some src \<Rightarrow>
          (case copier_Copy (zeroFields src) src of
             None \<Rightarrow>
               \<lparr>returned = wrap (config b) (zeroFields src), failure = Some CloneFailed,
                environment = environ w, steps = [SClone]\<rparr>
           | Some t0 \<Rightarrow>
               (case fileOverlay L w (filepath b) t0 of
                  (t1, Some err, st) \<Rightarrow>
                    \<lparr>returned = wrap (config b) t1, failure = Some err,
                     environment = environ w, steps = SClone # st\<rparr>
                | (t1, None, st) \<Rightarrow>
                    (case loadEnvFromAncestors w (envFiles b) (environ w) of
                       Inl err \<Rightarrow>
                         \<lparr>returned = wrap (config b) t1, failure = Some (LoadEnvFailed err),
                          environment = environ w, steps = SClone # st @ [SEnvFiles]\<rparr>
                     | Inr (e1, found) \<Rightarrow>
                         (case loadEnvToStruct L e1 (envPrefix b) (envTag b) [] t1 of
                            (t2, Some err) \<Rightarrow>
                              \<lparr>returned = wrap (config b) t2,
                               failure = Some (if isPanic err then err else OverrideFailed err),
                               environment = e1, steps = SClone # st @ [SEnvFiles, SEnvOverlay]\<rparr>
                          | (t2, None) \<Rightarrow>
                              \<lparr>returned = wrap (config b) t2,
                               failure = (if validate L t2 then None else Some InvalidConfiguration),
                               environment = e1,
                               steps = SClone # st @ [SEnvFiles, SEnvOverlay, SValidate]\<rparr>)))))"

subsection \<open>Slices in memory: what the clone shares\<close>

text \<open>
  The model above holds a \<^verbatim>\<open>[]string\<close> by its elements, which is all the overlay reads
  and writes. In memory the field holds a slice header, which points to an array that
  holds the elements; an assignment of the slice copies the header and no element.
  This subsection models that much: a store of arrays, a header as the address of its
  array and its length, and a struct as its fields' cells: a scalar in place, a header,
  or a nested struct in place.
\<close>

type_synonym addr = nat

type_synonym arrays = "addr \<Rightarrow> string list"

record header =
  data :: addr
  len :: nat

datatype cell = Scalar val | Header header | Sub "(StructField \<times> cell) list"

type_synonym cells = "(StructField \<times> cell) list"

text \<open>
  \<^verbatim>\<open>copier.Copy(target, b.config)\<close> as line 94 calls it, without the option
  \<^verbatim>\<open>DeepCopy\<close>: each field of the target is set from the source's field of the same
  name with \<^verbatim>\<open>reflect.Value.Set\<close>, an assignment. A scalar is copied, a nested
  struct is copied field by field, and a slice field receives the source's header.
\<close>

fun set_cell :: "cell \<Rightarrow> cell" where
  "set_cell (Scalar v) = Scalar v"
| "set_cell (Header h) = Header h"
| "set_cell (Sub fs) = Sub (map (\<lambda>(f, c). (f, set_cell c)) fs)"

definition copier_Copy_cells :: "cells \<Rightarrow> cells \<Rightarrow> cells" where
  "copier_Copy_cells to from = map (\<lambda>(f, c). (f, set_cell c)) from"

text \<open>The value a cell holds, read through the store.\<close>

fun load :: "arrays \<Rightarrow> cell \<Rightarrow> val" where
  "load A (Scalar v) = v"
| "load A (Header h) = VStrings (take (len h) (A (data h)))"
| "load A (Sub fs) = VStruct (map (\<lambda>(f, c). (f, load A c)) fs)"

definition loadFields :: "arrays \<Rightarrow> cells \<Rightarrow> fields" where
  "loadFields A cs = map (\<lambda>(f, c). (f, load A c)) cs"

text \<open>
  The assignment \<^verbatim>\<open>s[i] = x\<close> to an element of a slice: it writes into the array of
  the header; an index beyond the length panics and there is no result.
\<close>

definition storeElem :: "arrays \<Rightarrow> header \<Rightarrow> nat \<Rightarrow> string \<Rightarrow> arrays option" where
  "storeElem A h i s = (if i < len h then Some (A(data h := (A (data h))[i := s])) else None)"

subsection \<open>Reading the results: what an error names, joined strings, sample data\<close>

text \<open>
  The strings an error's message is formatted from: the arguments of its \<^verbatim>\<open>%s\<close> verbs and,
  through \<^verbatim>\<open>%w\<close>, the function name and the input that the wrapped cause quotes.
\<close>

fun cause_formatted :: "cause \<Rightarrow> string list" where
  "cause_formatted (NumError fn num err) = [fn, num]"
| "cause_formatted (DurationError s) = [s]"

fun formatted :: "error \<Rightarrow> string list" where
  "formatted (InvalidDuration envVar c) = envVar # cause_formatted c"
| "formatted (InvalidSlogLevel envVar envValue) = [envVar, envValue]"
| "formatted (InvalidInteger envVar c) = envVar # cause_formatted c"
| "formatted (InvalidUnsigned envVar c) = envVar # cause_formatted c"
| "formatted (InvalidFloat envVar c) = envVar # cause_formatted c"
| "formatted (InvalidBool envVar c) = envVar # cause_formatted c"
| "formatted (SubConfig name err) = name # formatted err"
| "formatted (ReadFileFailed path) = [path]"
| "formatted (LoadEnvFailed err) = formatted err"
| "formatted (OverrideFailed err) = formatted err"
| "formatted err = []"

text \<open>\<^verbatim>\<open>strings.Join\<close>.\<close>

fun Join :: "string list \<Rightarrow> string \<Rightarrow> string" where
  "Join [] sep = []"
| "Join [s] sep = s"
| "Join (s # t # ss) sep = s @ sep @ Join (t # ss) sep"

text \<open>
  A library instance for the closed examples: a table of two durations, the four level
  names, upper-casing of ASCII letters (what \<^verbatim>\<open>strings.ToUpper\<close> does on an ASCII string),
  one float, a JSON decoder that changes nothing and a validator that accepts.
\<close>

definition asciiUpper :: "char \<Rightarrow> char" where
  "asciiUpper c =
     (if (97::nat) \<le> of_char c \<and> of_char c \<le> (122::nat) then char_of (of_char c - (32::nat)) else c)"

definition sampleLib :: lib where
  "sampleLib =
     \<lparr>ParseDuration = (\<lambda>s. if s = ''60s'' then Some 60000000000 else if s = ''10s'' then Some 10000000000 else None),
      UnmarshalText = (\<lambda>s. if s = ''DEBUG'' then Some (- 4) else if s = ''INFO'' then Some 0
                            else if s = ''WARN'' then Some 4 else if s = ''ERROR'' then Some 8 else None),
      ToUpper = map asciiUpper,
      ParseFloat = (\<lambda>s. if s = ''2.5'' then Inr 4612811918334230528 else Inl ErrSyntax),
      toFloat32 = (\<lambda>x. x),
      Unmarshal = (\<lambda>data t. (t, True)),
      validate = (\<lambda>t. True)\<rparr>"

text \<open>An exported field whose tag is \<^verbatim>\<open>env:"segment"\<close>.\<close>

definition envField :: "string \<Rightarrow> string \<Rightarrow> StructField" where
  "envField name segment = \<lparr>Name = name, exported = True, Tag = [(''env'', segment)]\<rparr>"

text \<open>A state of the world for the closed examples: no file anywhere.\<close>

definition sampleWorld :: world where
  "sampleWorld =
     \<lparr>environ = [''TEST_PORT'' \<mapsto> ''not-an-int''],
      Getwd = Some [''home'', ''app''],
      envFileAt = (\<lambda>dir fileName. Missing),
      ReadFile = (\<lambda>path. None)\<rparr>"

subsection \<open>The claims' own words, as definitions\<close>

text \<open>
  The definitions of this subsection are not taken from the source: they say, in the
  words of the specification, what the source is compared with.

  The segment a struct field contributes to the path of its descendants: its tag
  value, or nothing when it has no tag or an empty one.
\<close>

definition spec_segment :: "string \<Rightarrow> StructField \<Rightarrow> string list" where
  "spec_segment tag field =
     (case Lookup (Tag field) tag of None \<Rightarrow> [] | Some s \<Rightarrow> if s = [] then [] else [s])"

text \<open>
  The field at a position, given as the list of field indices that lead to it from
  the outermost struct, if the resolver reaches it: every field on the way is an
  exported struct. With the field come the segments of the structs on the way.
\<close>

fun spec_resolve :: "string \<Rightarrow> fields \<Rightarrow> nat list \<Rightarrow> (string list \<times> StructField \<times> val) option" where
  "spec_resolve tag fs [] = None"
| "spec_resolve tag fs (i # p) =
     (if i < length fs \<and> exported (fst (fs ! i)) then
        (if p = [] then Some ([], fs ! i)
         else (case snd (fs ! i) of
                 VStruct sub \<Rightarrow>
                   (case spec_resolve tag sub p of
                      None \<Rightarrow> None
                    | Some (segs, fv) \<Rightarrow> Some (spec_segment tag (fst (fs ! i)) @ segs, fv))
               | _ \<Rightarrow> None))
      else None)"

text \<open>
  The name of the variable of a leaf: the prefix, the parent path (the segments joined
  by underscores) and an underscore when that path is not empty, and the leaf's tag.
\<close>

definition spec_key :: "string \<Rightarrow> string list \<Rightarrow> string \<Rightarrow> string" where
  "spec_key prefix segs leaf =
     (let parent_path = Join segs ''_''
      in if parent_path \<noteq> [] then prefix @ parent_path @ ''_'' @ leaf else prefix @ leaf)"

text \<open>The directories the search visits: the working directory, then each parent, the root last.\<close>

definition spec_ancestors :: "string list \<Rightarrow> string list list" where
  "spec_ancestors dir = map (\<lambda>n. take n dir) (rev [0..<Suc (length dir)])"

text \<open>What lies at each place the search looks at, in the order it looks.\<close>

definition spec_candidates :: "world \<Rightarrow> string list \<Rightarrow> string list \<Rightarrow> dotenv list" where
  "spec_candidates w dir filesToTry =
     concat (map (\<lambda>d. map (\<lambda>fileName. envFileAt w d fileName) filesToTry) (spec_ancestors dir))"

text \<open>The value the first loaded file that defines a variable gives it.\<close>

fun spec_first :: "dotenv list \<Rightarrow> string \<Rightarrow> string option" where
  "spec_first [] key = None"
| "spec_first (Parsed m # cs) key = (case m key of Some v \<Rightarrow> Some v | None \<Rightarrow> spec_first cs key)"
| "spec_first (c # cs) key = spec_first cs key"

text \<open>
  The environment once the files are loaded: a variable that was set keeps its value,
  any other gets the value of the first file that defines it.
\<close>

definition spec_loaded :: "env \<Rightarrow> dotenv list \<Rightarrow> env" where
  "spec_loaded e cs = (\<lambda>key. case e key of Some v \<Rightarrow> Some v | None \<Rightarrow> spec_first cs key)"

definition spec_found :: "dotenv list \<Rightarrow> bool" where
  "spec_found cs = (\<exists>m. Parsed m \<in> set cs)"

subsection \<open>Sample data for the closed examples\<close>

text \<open>
  A world with two environment files above the working directory and a JSON file, a
  library whose decoder sets three fields, a default configuration, and a library
  whose validator rejects.
\<close>

definition fileWorld :: world where
  "fileWorld =
     \<lparr>environ = [''TEST_PORT'' \<mapsto> ''6060'', ''TEST_NUMS'' \<mapsto> ''7,8''],
      Getwd = Some [''home'', ''app'', ''sub''],
      envFileAt = (\<lambda>dir fileName.
         if dir = [''home'', ''app''] \<and> fileName = ''.env''
           then Parsed [''TEST_PORT'' \<mapsto> ''1111'', ''TEST_APP_NAME'' \<mapsto> ''closer'']
         else if dir = [''home''] \<and> fileName = ''.env''
           then Parsed [''TEST_APP_NAME'' \<mapsto> ''farther'', ''TEST_LOAD_FACTOR'' \<mapsto> ''7.7'']
         else Missing),
      ReadFile = (\<lambda>path. if path = ''config.json'' then Some ''app_name=file-app port=9090 nums=[3]'' else None)\<rparr>"



definition rejectingLib :: lib where
  "rejectingLib = sampleLib\<lparr>validate := (\<lambda>t. False)\<rparr>"

section \<open>Properties\<close>

declare ancestorLoop.simps [simp del]

declare TrimLeft.simps [simp del]

subsection \<open>The loop of \<^verbatim>\<open>loadEnvToStruct\<close>\<close>

lemma reflect_Set_Inr: "reflect_Set v x = Inr r \<Longrightarrow> r = x"
  by (cases v) auto

lemma overlay_set:
  "(case setFieldValue L envVar envValue v of Inl err \<Rightarrow> Inl err | Inr x \<Rightarrow> reflect_Set v x) = Inr r
   \<Longrightarrow> setFieldValue L envVar envValue v = Inr r"
  by (auto split: sum.splits dest: reflect_Set_Inr)

lemma overlayField_struct: "overlayField L e prefix tag par field (VStruct s) = Inr (VStruct s)"
  by (simp add: overlayField_def Let_def split: option.splits)

lemma loadEnvToStruct_length:
  "length (fst (loadEnvToStruct L e prefix tag par fs)) = length fs"
  by (induction L e prefix tag par fs rule: loadEnvToStruct.induct)
     (auto split: prod.splits option.splits sum.splits val.splits)

lemma loop_nth:
  "loadEnvToStruct L e prefix tag par fs = (fs', None) \<Longrightarrow> i < length fs \<Longrightarrow> fs ! i = (field, v) \<Longrightarrow>
   \<exists>r. fs' ! i = (field, r) \<and>
     (if \<not> exported field then r = v
      else (case v of
              VStruct sub \<Rightarrow> \<exists>sub'. loadEnvToStruct L e prefix tag (newEnvPath tag par field) sub = (sub', None) \<and> r = VStruct sub'
            | _ \<Rightarrow> overlayField L e prefix tag par field v = Inr r))"
proof (induction fs arbitrary: fs' i)
  case Nil
  then show ?case by simp
next
  case (Cons a rest)
  obtain f0 v0 where a: "a = (f0, v0)" by (cases a)
  obtain rest' err where r: "loadEnvToStruct L e prefix tag par rest = (rest', err)"
    by (cases "loadEnvToStruct L e prefix tag par rest")
  from Cons.prems(1) have err: "err = None" and "\<exists>r0. fs' = (f0, r0) # rest'"
    unfolding a using r
    by (auto split: prod.splits option.splits sum.splits val.splits if_splits)
  then obtain r0 where fs': "fs' = (f0, r0) # rest'" by blast
  show ?case
  proof (cases i)
    case 0
    then have fv: "f0 = field" "v0 = v" using Cons.prems(3) a by auto
    show ?thesis
      using Cons.prems(1) unfolding a fv 0 fs' using r
      by (auto simp: overlayField_struct split: prod.splits option.splits sum.splits val.splits if_splits)
  next
    case (Suc j)
    then show ?thesis
      using Cons.IH [of rest' j] Cons.prems r err fs' by simp
  qed
qed

subsection \<open>String slices\<close>

lemma Split_nonempty: "Split s sep \<noteq> []"
  by (induction s) (auto split: list.splits)

lemma Split_length: "length (Split s sep) = Suc (count_list s sep)"
  by (induction s) (auto simp: Split_nonempty split: list.splits)

lemma Join_Cons: "ps \<noteq> [] \<Longrightarrow> Join ((c # p) # ps') [sep] = c # Join (p # ps') [sep]"
  by (cases ps') auto

lemma Join_Split: "Join (Split s sep) [sep] = s"
proof (induction s)
  case Nil
  then show ?case by simp
next
  case (Cons c s)
  obtain p ps where sp: "Split s sep = p # ps"
    using Split_nonempty [of s sep] by (cases "Split s sep") auto
  show ?case
  proof (cases "c = sep")
    case True
    then show ?thesis using Cons sp by simp
  next
    case False
    then show ?thesis using Cons sp by (cases ps) auto
  qed
qed

lemma Split_no_sep: "p \<in> set (Split s sep) \<Longrightarrow> sep \<notin> set p"
  by (induction s arbitrary: p) (auto split: list.splits if_splits)

lemma TrimLeft_no_prefix:
  "w \<in> set ws \<Longrightarrow> w \<noteq> [] \<Longrightarrow> \<not> HasPrefix (TrimLeft ws s) w"
proof (induction ws s rule: TrimLeft.induct)
  case (1 ws s)
  show ?case
  proof (cases "find (\<lambda>w. w \<noteq> [] \<and> HasPrefix s w) ws")
    case None
    then have "TrimLeft ws s = s" by (simp add: TrimLeft.simps)
    then show ?thesis using None 1(2,3) by (auto simp: find_None_iff)
  next
    case (Some u)
    then have "TrimLeft ws s = TrimLeft ws (drop (length u) s)" by (simp add: TrimLeft.simps)
    then show ?thesis using 1(1) [OF Some 1(2,3)] by simp
  qed
qed

lemma TrimLeft_drop: "\<exists>n. TrimLeft ws s = drop n s"
proof (induction ws s rule: TrimLeft.induct)
  case (1 ws s)
  show ?case
  proof (cases "find (\<lambda>w. w \<noteq> [] \<and> HasPrefix s w) ws")
    case None
    then have "TrimLeft ws s = drop 0 s" by (simp add: TrimLeft.simps)
    then show ?thesis by blast
  next
    case (Some u)
    then have "TrimLeft ws s = TrimLeft ws (drop (length u) s)" by (simp add: TrimLeft.simps)
    then obtain n where "TrimLeft ws s = drop n (drop (length u) s)" using 1 [OF Some] by auto
    then have "TrimLeft ws s = drop (n + length u) s" by simp
    then show ?thesis by blast
  qed
qed

lemma HasPrefix_take: "HasPrefix (take m t) w \<Longrightarrow> HasPrefix t w"
proof -
  assume h: "HasPrefix (take m t) w"
  then have eq: "take (length w) (take m t) = w" by (simp add: HasPrefix_def)
  then have "length w \<le> m" by (metis length_take min.cobounded2 min.cobounded1 le_trans)
  then have "take (length w) (take m t) = take (length w) t" by (simp add: min_def)
  then show ?thesis using eq by (simp add: HasPrefix_def)
qed

lemma whiteSpace_nonempty: "w \<in> set whiteSpace \<Longrightarrow> w \<noteq> []"
  by (auto simp: whiteSpace_def)

lemma TrimSpace_trimmed:
  assumes "w \<in> set whiteSpace"
  shows "\<not> HasPrefix (TrimSpace s) w \<and> \<not> HasSuffix (TrimSpace s) w"
proof -
  let ?t = "TrimLeft whiteSpace s"
  let ?u = "TrimLeft (map rev whiteSpace) (rev ?t)"
  have w: "w \<noteq> []" using assms by (rule whiteSpace_nonempty)
  have suf: "\<not> HasPrefix ?u (rev w)"
    using TrimLeft_no_prefix [of "rev w" "map rev whiteSpace" "rev ?t"] assms w by simp
  obtain n where n: "?u = drop n (rev ?t)" using TrimLeft_drop by blast
  have "rev ?u = take (length ?t - n) ?t"
    unfolding n by (simp add: rev_drop)
  then have pre: "TrimSpace s = take (length ?t - n) ?t" by (simp add: TrimSpace_def)
  have "\<not> HasPrefix ?t w" using TrimLeft_no_prefix [OF assms w] .
  then have 1: "\<not> HasPrefix (TrimSpace s) w" unfolding pre using HasPrefix_take by blast
  have 2: "\<not> HasSuffix (TrimSpace s) w" using suf by (simp add: HasSuffix_def TrimSpace_def)
  show ?thesis using 1 2 by simp
qed

text \<open>
  Claim C8. A \<^verbatim>\<open>[]string\<close> field with a non-empty environment value receives the value
  split at every comma, each piece trimmed of surrounding white space: the pieces
  joined by commas give the value back (order and duplicates are kept), there is one
  more piece than there are commas (no piece is dropped, an empty one included), and
  no element starts or ends with a white-space rune, of ASCII or beyond.
\<close>

theorem string_slice_split_trim:
  assumes "Lookup (Tag field) tag = Some envVar" and "envVar \<noteq> []"
    and "Getenv e (prefix @ fullEnvVar parentEnvPath envVar) = envValue" and "envValue \<noteq> []"
  shows "overlayField L e prefix tag parentEnvPath field (VStrings old) =
           Inr (VStrings (map TrimSpace (Split envValue CHR '','')))
         \<and> Join (Split envValue CHR '','') '','' = envValue
         \<and> length (map TrimSpace (Split envValue CHR '','')) = Suc (count_list envValue CHR '','')
         \<and> (\<forall>x \<in> set (map TrimSpace (Split envValue CHR '','')).
               \<forall>w \<in> set whiteSpace. \<not> HasPrefix x w \<and> \<not> HasSuffix x w)"
proof -
  have 1: "overlayField L e prefix tag parentEnvPath field (VStrings old) =
           Inr (VStrings (map TrimSpace (Split envValue CHR '','')))"
    using assms by (simp add: overlayField_def)
  have 2: "Join (Split envValue CHR '','') '','' = envValue"
    by (rule Join_Split)
  have 3: "length (map TrimSpace (Split envValue CHR '','')) = Suc (count_list envValue CHR '','')"
    by (simp add: Split_length)
  have 4: "\<forall>x \<in> set (map TrimSpace (Split envValue CHR '','')).
               \<forall>w \<in> set whiteSpace. \<not> HasPrefix x w \<and> \<not> HasSuffix x w"
    using TrimSpace_trimmed by auto
  show ?thesis using 1 2 3 4 by blast
qed

theorem string_slice_split_trim_witness:
  "overlayField sampleLib [''TEST_TAGS'' \<mapsto> '' tag1 , tag2 ''] ''TEST_'' ''env'' [] (envField ''Tags'' ''TAGS'') (VStrings [''default''])
     = Inr (VStrings [''tag1'', ''tag2''])
   \<and> overlayField sampleLib [''TEST_TAGS'' \<mapsto> ''a,,b''] ''TEST_'' ''env'' [] (envField ''Tags'' ''TAGS'') (VStrings [''default''])
     = Inr (VStrings [''a'', [], ''b''])
   \<and> overlayField sampleLib [''TEST_TAGS'' \<mapsto> [CHR ''a'', CHR 0xC2, CHR 0xA0, CHR '','', CHR 0xC2, CHR 0x85, CHR ''b'']]
        ''TEST_'' ''env'' [] (envField ''Tags'' ''TAGS'') (VStrings [''default''])
     = Inr (VStrings [''a'', ''b''])"
proof -
  let ?field = "envField ''Tags'' ''TAGS''"
  let ?e = "[''TEST_TAGS'' \<mapsto> '' tag1 , tag2 '']"
  have t: "Lookup (Tag ?field) ''env'' = Some ''TAGS''"
    by (simp add: envField_def Lookup_def)
  have g: "Getenv ?e (''TEST_'' @ fullEnvVar [] ''TAGS'') = '' tag1 , tag2 ''"
    by (simp add: Getenv_def fullEnvVar_def)
  have "overlayField sampleLib ?e ''TEST_'' ''env'' [] ?field (VStrings [''default''])
      = Inr (VStrings (map TrimSpace (Split '' tag1 , tag2 '' CHR '','')))"
    using string_slice_split_trim [OF t _ g, of sampleLib "[''default'']"] by simp
  moreover have "map TrimSpace (Split '' tag1 , tag2 '' CHR '','') = [''tag1'', ''tag2'']"
    by (simp add: TrimSpace_def TrimLeft.simps whiteSpace_def HasPrefix_def)
  ultimately have 1: "overlayField sampleLib ?e ''TEST_'' ''env'' [] ?field (VStrings [''default''])
      = Inr (VStrings [''tag1'', ''tag2''])"
    by simp
  have 2: "overlayField sampleLib [''TEST_TAGS'' \<mapsto> ''a,,b''] ''TEST_'' ''env'' [] ?field (VStrings [''default''])
     = Inr (VStrings [''a'', [], ''b''])"
    by (simp add: envField_def Lookup_def Getenv_def fullEnvVar_def overlayField_def
          TrimSpace_def TrimLeft.simps whiteSpace_def HasPrefix_def)
  have 3: "overlayField sampleLib [''TEST_TAGS'' \<mapsto> [CHR ''a'', CHR 0xC2, CHR 0xA0, CHR '','', CHR 0xC2, CHR 0x85, CHR ''b'']]
        ''TEST_'' ''env'' [] ?field (VStrings [''default''])
     = Inr (VStrings [''a'', ''b''])"
    by (simp add: envField_def Lookup_def Getenv_def fullEnvVar_def overlayField_def
          TrimSpace_def TrimLeft.simps whiteSpace_def HasPrefix_def)
  show ?thesis using 1 2 3 by simp
qed

text \<open>
  A slice of a defined string type is not a \<^verbatim>\<open>[]string\<close>: the slice case is entered
  (the element's kind is String), and \<^verbatim>\<open>fieldValue.Set\<close> panics.
\<close>

lemma named_string_slice_panics:
  "overlayField sampleLib [''TEST_ROLES'' \<mapsto> ''admin,guest''] ''TEST_'' ''env'' []
      (envField ''Roles'' ''ROLES'') (VNamedStrings ''Role'' [''guest''])
    = Inl (Panic ''reflect.Set: value of type []string is not assignable to type []Role'')
   \<and> loadEnvToStruct sampleLib [''TEST_ROLES'' \<mapsto> ''admin,guest''] ''TEST_'' ''env'' []
        [(envField ''Auth'' ''AUTH'', VStruct []),
         (\<lparr>Name = ''Inner'', exported = True, Tag = []\<rparr>,
            VStruct [(envField ''Roles'' ''ROLES'', VNamedStrings ''Role'' [''guest''])])]
      = ([(envField ''Auth'' ''AUTH'', VStruct []),
          (\<lparr>Name = ''Inner'', exported = True, Tag = []\<rparr>,
            VStruct [(envField ''Roles'' ''ROLES'', VNamedStrings ''Role'' [''guest''])])],
         Some (Panic ''reflect.Set: value of type []string is not assignable to type []Role''))"
  by (simp add: envField_def Lookup_def Getenv_def fullEnvVar_def newEnvPath_def overlayField_def)

subsection \<open>The nil default\<close>

text \<open>
  Claim C7. When the stored default is a nil pointer, \<^verbatim>\<open>Build\<close> returns the nil-pointer
  error at once: whatever the library, the world and the other settings of the builder
  are, the value returned is the nil pointer, the environment is as it was, and none of
  the steps (clone, file read, decoding, search for environment files, environment
  overlay, validation) has run.
\<close>

theorem Build_nil_pointer:
  "Build L w (b\<lparr>config := ByPointer None\<rparr>) =
     \<lparr>returned = ByPointer None, failure = Some NilPointer, environment = environ w, steps = []\<rparr>"
  by (simp add: Build_def)

theorem Build_nil_pointer_witness:
  "Build sampleLib sampleWorld (File (Some ''config.json'') (EnvFiles [''.env''] (EnvPrefix ''TEST_'' (New (ByPointer None))))) =
     \<lparr>returned = ByPointer None, failure = Some NilPointer, environment = environ sampleWorld, steps = []\<rparr>"
  using Build_nil_pointer [of sampleLib sampleWorld "File (Some ''config.json'') (EnvFiles [''.env''] (EnvPrefix ''TEST_'' (New (ByPointer None))))"]
  by (simp add: New_def File_def EnvFiles_def EnvPrefix_def)

subsection \<open>Integers narrower than 64 bits\<close>

lemma int_bits_pos: "0 < int_bits k"
  by (cases k) simp_all

lemma two_power_split: "0 < w \<Longrightarrow> (2::int) ^ w = 2 * 2 ^ (w - 1)"
  by (cases w) simp_all

lemma truncate_signed_range:
  assumes "0 < w"
  shows "- (2 ^ (w - 1)) \<le> truncate_signed w x \<and> truncate_signed w x < 2 ^ (w - 1)"
proof -
  let ?h = "(2::int) ^ (w - 1)"
  have h: "0 < ?h" by simp
  have m: "(2::int) ^ w = 2 * ?h" using assms by (rule two_power_split)
  have "0 \<le> (x + ?h) mod (2 * ?h)" and "(x + ?h) mod (2 * ?h) < 2 * ?h"
    using h by simp_all
  then show ?thesis
    unfolding truncate_signed_def m by linarith
qed

lemma truncate_signed_cong: "(truncate_signed w x - x) mod 2 ^ w = 0"
proof -
  have "(truncate_signed w x - x) mod 2 ^ w = ((x + 2 ^ (w - 1)) mod 2 ^ w - (2 ^ (w - 1) + x)) mod 2 ^ w"
    by (simp add: truncate_signed_def algebra_simps)
  also have "\<dots> = ((x + 2 ^ (w - 1)) - (2 ^ (w - 1) + x)) mod 2 ^ w"
    by (rule mod_diff_left_eq)
  also have "\<dots> = 0" by simp
  finally show ?thesis .
qed

text \<open>
  Claim C10, as amended. An environment value that parses as a base-10 integer of 64
  bits is set on a signed field of any kind without error: the field receives the
  value reduced to the kind's width (two's complement: in the kind's range and
  congruent to the parsed value modulo 2 to the width), so a value outside the range
  of a narrower kind is stored truncated. An unsigned field likewise receives the
  parsed value modulo 2 to the width.
\<close>

theorem integer_overlay_keeps_low_bits:
  "(ParseInt envValue = Inr x \<longrightarrow>
      setFieldValue L envVar envValue (VInt k old) = Inr (VInt k (truncate_signed (int_bits k) x))
      \<and> - (2 ^ (int_bits k - 1)) \<le> truncate_signed (int_bits k) x
      \<and> truncate_signed (int_bits k) x < 2 ^ (int_bits k - 1)
      \<and> (truncate_signed (int_bits k) x - x) mod 2 ^ int_bits k = 0)
   \<and> (ParseUint envValue = Inr u \<longrightarrow>
      setFieldValue L envVar envValue (VUint ku oldu) = Inr (VUint ku (u mod 2 ^ uint_bits ku)))"
  using truncate_signed_range [OF int_bits_pos, of k x] truncate_signed_cong [of "int_bits k" x]
  by (simp add: SetInt_def SetUint_def truncate_unsigned_def)

theorem integer_overlay_keeps_low_bits_witness:
  "ParseInt ''300'' = Inr 300 \<and> ParseUint ''300'' = Inr 300
   \<and> setFieldValue sampleLib ''PORT'' ''300'' (VInt KInt8 0) = Inr (VInt KInt8 44)
   \<and> setFieldValue sampleLib ''PORT'' ''300'' (VUint KUint8 0) = Inr (VUint KUint8 44)"
  using integer_overlay_keeps_low_bits [of "''300''" 300 sampleLib "''PORT''" KInt8 0 300 KUint8 0]
  by (simp add: ParseInt_def ParseUint_def isDigit_def truncate_signed_def)

text \<open>
  Claim C10 as stated fails: 300 parses in 64 bits and is outside the range of an
  \<^verbatim>\<open>int8\<close>, and the overlay of an \<^verbatim>\<open>int8\<close> field returns normally, without an error, the
  field holding 44.
\<close>

theorem narrow_integer_no_panic_counterexample:
  "ParseInt ''300'' = Inr 300 \<and> \<not> (300::int) < 2 ^ (int_bits KInt8 - 1)
   \<and> overlayField sampleLib [''TEST_PORT'' \<mapsto> ''300''] ''TEST_'' ''env'' [] (envField ''Port'' ''PORT'') (VInt KInt8 0)
       = Inr (VInt KInt8 44)
   \<and> loadEnvToStruct sampleLib [''TEST_PORT'' \<mapsto> ''300''] ''TEST_'' ''env'' [] [(envField ''Port'' ''PORT'', VInt KInt8 0)]
       = ([(envField ''Port'' ''PORT'', VInt KInt8 44)], None)"
  by (simp add: ParseInt_def ParseUint_def isDigit_def truncate_signed_def SetInt_def
        overlayField_def envField_def Lookup_def Getenv_def fullEnvVar_def)

subsection \<open>Empty and unset variables\<close>

lemma loop_leaf_unchanged:
  "i < length fs \<Longrightarrow> fs ! i = (field, v) \<Longrightarrow> (\<forall>sub. v \<noteq> VStruct sub) \<Longrightarrow>
   overlayField L e prefix tag par field v = Inr v \<Longrightarrow>
   fst (loadEnvToStruct L e prefix tag par fs) ! i = (field, v)"
proof (induction fs arbitrary: i)
  case Nil
  then show ?case by simp
next
  case (Cons a rest)
  obtain f0 v0 where a: "a = (f0, v0)" by (cases a)
  show ?case
  proof (cases i)
    case 0
    then have fv: "f0 = field" "v0 = v" using Cons.prems(2) a by auto
    show ?thesis
      using Cons.prems(3,4) unfolding a fv 0
      by (cases v) (auto split: prod.splits option.splits sum.splits)
  next
    case (Suc j)
    then have j: "j < length rest" "rest ! j = (field, v)" using Cons.prems by auto
    have IH: "fst (loadEnvToStruct L e prefix tag par rest) ! j = (field, v)"
      using Cons.IH [OF j Cons.prems(3,4)] .
    show ?thesis
      using IH j unfolding a Suc
      by (auto split: prod.splits option.splits sum.splits val.splits)
  qed
qed

text \<open>
  Claim C4. For a tagged field whose variable is unset or set to the empty string, the
  lookup-and-set part of the loop body returns the field's value as it is, whatever the
  field's type; and a field that is not a struct has, after the whole overlay of the
  struct it belongs to (successful or not), the value it had before. (For a field that
  is a struct, the only changes are those the recursion makes to its own fields.)
\<close>

theorem empty_environment_value_not_applied:
  assumes "Lookup (Tag field) tag = Some envVar"
    and "e (prefix @ fullEnvVar parentEnvPath envVar) = None \<or> e (prefix @ fullEnvVar parentEnvPath envVar) = Some []"
  shows "overlayField L e prefix tag parentEnvPath field v = Inr v
     \<and> (\<forall>fs i. i < length fs \<longrightarrow> fs ! i = (field, v) \<longrightarrow> (\<forall>sub. v \<noteq> VStruct sub) \<longrightarrow>
           fst (loadEnvToStruct L e prefix tag parentEnvPath fs) ! i = (field, v))"
proof -
  have g: "Getenv e (prefix @ fullEnvVar parentEnvPath envVar) = []"
    using assms(2) by (auto simp: Getenv_def)
  have 1: "overlayField L e prefix tag parentEnvPath field v = Inr v"
    using assms(1) g by (simp add: overlayField_def)
  show ?thesis
    using 1 loop_leaf_unchanged [where L = L and e = e and prefix = prefix and tag = tag and par = parentEnvPath and field = field and v = v]
    by blast
qed

theorem empty_environment_value_not_applied_witness:
  "fst (loadEnvToStruct sampleLib [''TEST_LOAD_FACTOR'' \<mapsto> [], ''TEST_PORT'' \<mapsto> ''7070''] ''TEST_'' ''env'' []
         [(envField ''Port'' ''PORT'', VInt KInt 8080),
          (envField ''LoadFactor'' ''LOAD_FACTOR'', VFloat KFloat64 4607182418800017408),
          (envField ''AppName'' ''APP_NAME'', VString ''test-app'')]) ! 1
     = (envField ''LoadFactor'' ''LOAD_FACTOR'', VFloat KFloat64 4607182418800017408)
   \<and> fst (loadEnvToStruct sampleLib [''TEST_LOAD_FACTOR'' \<mapsto> [], ''TEST_PORT'' \<mapsto> ''7070''] ''TEST_'' ''env'' []
         [(envField ''Port'' ''PORT'', VInt KInt 8080),
          (envField ''LoadFactor'' ''LOAD_FACTOR'', VFloat KFloat64 4607182418800017408),
          (envField ''AppName'' ''APP_NAME'', VString ''test-app'')]) ! 0
     = (envField ''Port'' ''PORT'', VInt KInt 7070)"
proof -
  let ?e = "[''TEST_LOAD_FACTOR'' \<mapsto> [], ''TEST_PORT'' \<mapsto> ''7070'']"
  let ?fs = "[(envField ''Port'' ''PORT'', VInt KInt 8080),
          (envField ''LoadFactor'' ''LOAD_FACTOR'', VFloat KFloat64 4607182418800017408),
          (envField ''AppName'' ''APP_NAME'', VString ''test-app'')]"
  have t: "Lookup (Tag (envField ''LoadFactor'' ''LOAD_FACTOR'')) ''env'' = Some ''LOAD_FACTOR''"
    by (simp add: envField_def Lookup_def)
  have k: "?e (''TEST_'' @ fullEnvVar [] ''LOAD_FACTOR'') = None \<or> ?e (''TEST_'' @ fullEnvVar [] ''LOAD_FACTOR'') = Some []"
    by (simp add: fullEnvVar_def)
  have 1: "fst (loadEnvToStruct sampleLib ?e ''TEST_'' ''env'' [] ?fs) ! 1
     = (envField ''LoadFactor'' ''LOAD_FACTOR'', VFloat KFloat64 4607182418800017408)"
    using empty_environment_value_not_applied [where e = ?e and prefix = "''TEST_''" and parentEnvPath = "[]"
        and envVar = "''LOAD_FACTOR''" and tag = "''env''" and field = "envField ''LoadFactor'' ''LOAD_FACTOR''"
        and L = sampleLib and v = "VFloat KFloat64 4607182418800017408", OF t k]
    by (simp del: loadEnvToStruct.simps)
  have 2: "fst (loadEnvToStruct sampleLib ?e ''TEST_'' ''env'' [] ?fs) ! 0 = (envField ''Port'' ''PORT'', VInt KInt 7070)"
    by (simp add: envField_def overlayField_def Lookup_def Getenv_def fullEnvVar_def
          ParseInt_def ParseUint_def isDigit_def SetInt_def truncate_signed_def)
  show ?thesis using 1 2 by simp
qed

subsection \<open>Coercion failures\<close>

text \<open>
  Claim C6, as amended. When the loop reaches an exported, tagged field whose
  non-empty environment value fails to parse for the field's type, it returns one of
  the six coercion errors, formatted from the field's own tag value (not the full
  name of the variable) and the offending input, and the struct is left as it was at
  that moment: the failing field and the fields after it keep their values.
\<close>

theorem coercion_failure_names_tag_and_literal:
  assumes "exported field" and "Lookup (Tag field) tag = Some envVar" and "envVar \<noteq> []"
    and "Getenv e (prefix @ fullEnvVar parentEnvPath envVar) = envValue" and "envValue \<noteq> []"
    and "setFieldValue L envVar envValue v = Inl err"
  shows "loadEnvToStruct L e prefix tag parentEnvPath ((field, v) # rest) = ((field, v) # rest, Some err)
     \<and> envVar \<in> set (formatted err) \<and> envValue \<in> set (formatted err)
     \<and> (err = InvalidDuration envVar (DurationError envValue)
        \<or> err = InvalidSlogLevel envVar envValue
        \<or> (\<exists>ne. err = InvalidInteger envVar (NumError ''ParseInt'' envValue ne))
        \<or> (\<exists>ne. err = InvalidUnsigned envVar (NumError ''ParseUint'' envValue ne))
        \<or> (\<exists>ne. err = InvalidFloat envVar (NumError ''ParseFloat'' envValue ne))
        \<or> (\<exists>ne. err = InvalidBool envVar (NumError ''ParseBool'' envValue ne)))"
proof -
  have ov: "overlayField L e prefix tag parentEnvPath field v = Inl err"
    using assms by (simp add: overlayField_def)
  have ns: "\<forall>sub. v \<noteq> VStruct sub"
    using assms(6) by auto
  have 1: "loadEnvToStruct L e prefix tag parentEnvPath ((field, v) # rest) = ((field, v) # rest, Some err)"
    using ov ns assms(1) by (cases v) simp_all
  have 2: "err = InvalidDuration envVar (DurationError envValue)
        \<or> err = InvalidSlogLevel envVar envValue
        \<or> (\<exists>ne. err = InvalidInteger envVar (NumError ''ParseInt'' envValue ne))
        \<or> (\<exists>ne. err = InvalidUnsigned envVar (NumError ''ParseUint'' envValue ne))
        \<or> (\<exists>ne. err = InvalidFloat envVar (NumError ''ParseFloat'' envValue ne))
        \<or> (\<exists>ne. err = InvalidBool envVar (NumError ''ParseBool'' envValue ne))"
    using assms(6) by (cases v) (auto split: option.splits sum.splits)
  have 3: "envVar \<in> set (formatted err) \<and> envValue \<in> set (formatted err)"
    using 2 by auto
  show ?thesis using 1 2 3 by blast
qed

theorem coercion_failure_names_tag_and_literal_witness:
  "loadEnvToStruct sampleLib [''TEST_TIMEOUT'' \<mapsto> ''not-a-duration''] ''TEST_'' ''env'' []
      [(envField ''Timeout'' ''TIMEOUT'', VDuration 30000000000), (envField ''AppName'' ''APP_NAME'', VString ''test-app'')]
    = ([(envField ''Timeout'' ''TIMEOUT'', VDuration 30000000000), (envField ''AppName'' ''APP_NAME'', VString ''test-app'')],
       Some (InvalidDuration ''TIMEOUT'' (DurationError ''not-a-duration'')))
   \<and> ''TIMEOUT'' \<in> set (formatted (InvalidDuration ''TIMEOUT'' (DurationError ''not-a-duration'')))
   \<and> ''not-a-duration'' \<in> set (formatted (InvalidDuration ''TIMEOUT'' (DurationError ''not-a-duration'')))"
  using coercion_failure_names_tag_and_literal [of "envField ''Timeout'' ''TIMEOUT''" "''env''" "''TIMEOUT''"
      "[''TEST_TIMEOUT'' \<mapsto> ''not-a-duration'']" "''TEST_''" "[]" "''not-a-duration''" sampleLib "VDuration 30000000000"
      "InvalidDuration ''TIMEOUT'' (DurationError ''not-a-duration'')" "[(envField ''AppName'' ''APP_NAME'', VString ''test-app'')]"]
  by (simp add: envField_def Lookup_def Getenv_def fullEnvVar_def sampleLib_def del: loadEnvToStruct.simps)

text \<open>
  Claim C6 as stated fails: the variable consulted is \<^verbatim>\<open>TEST_DB_PORT\<close>, and the error
  returned is formatted from the struct field's name, the tag value \<^verbatim>\<open>PORT\<close>, the name
  of the parsing function and the input; the name of the variable is not among them.
\<close>

theorem coercion_error_omits_environment_key_counterexample:
  "Getenv [''TEST_DB_PORT'' \<mapsto> ''not-an-int''] (''TEST_'' @ fullEnvVar ''DB'' ''PORT'') = ''not-an-int''
   \<and> loadEnvToStruct sampleLib [''TEST_DB_PORT'' \<mapsto> ''not-an-int''] ''TEST_'' ''env'' []
        [(envField ''Database'' ''DB'', VStruct [(envField ''Port'' ''PORT'', VInt KInt 5432)])]
      = ([(envField ''Database'' ''DB'', VStruct [(envField ''Port'' ''PORT'', VInt KInt 5432)])],
         Some (SubConfig ''Database'' (InvalidInteger ''PORT'' (NumError ''ParseInt'' ''not-an-int'' ErrSyntax))))
   \<and> formatted (SubConfig ''Database'' (InvalidInteger ''PORT'' (NumError ''ParseInt'' ''not-an-int'' ErrSyntax)))
      = [''Database'', ''PORT'', ''ParseInt'', ''not-an-int'']
   \<and> ''TEST_DB_PORT'' \<notin> set (formatted (SubConfig ''Database'' (InvalidInteger ''PORT'' (NumError ''ParseInt'' ''not-an-int'' ErrSyntax))))
   \<and> ''DB_PORT'' \<notin> set (formatted (SubConfig ''Database'' (InvalidInteger ''PORT'' (NumError ''ParseInt'' ''not-an-int'' ErrSyntax))))"
  by (simp add: envField_def overlayField_def Lookup_def Getenv_def fullEnvVar_def newEnvPath_def
        ParseInt_def ParseUint_def isDigit_def)

subsection \<open>The name of the variable of a nested field\<close>

lemma Join_append1:
  "Join (segs @ [s]) sep = (if segs = [] then s else Join segs sep @ sep @ s)"
  by (induction segs sep rule: Join.induct) auto

lemma Join_nonempty: "segs \<noteq> [] \<Longrightarrow> \<forall>s \<in> set segs. s \<noteq> [] \<Longrightarrow> Join segs sep \<noteq> []"
  by (induction segs sep rule: Join.induct) auto

lemma Join_Cons2: "segs \<noteq> [] \<Longrightarrow> Join (s # segs) sep = s @ sep @ Join segs sep"
  by (cases segs) auto

lemma spec_segment_nonempty: "s \<in> set (spec_segment tag field) \<Longrightarrow> s \<noteq> []"
  by (auto simp: spec_segment_def split: option.splits if_splits)

lemma spec_resolve_segs_nonempty:
  "spec_resolve tag fs p = Some (segs, fv) \<Longrightarrow> \<forall>s \<in> set segs. s \<noteq> []"
proof (induction p arbitrary: fs segs)
  case Nil
  then show ?case by simp
next
  case (Cons i p)
  show ?case
  proof (cases "p = []")
    case True
    then show ?thesis using Cons.prems by (auto split: if_splits)
  next
    case False
    then obtain sub segs' where
      sub: "spec_resolve tag sub p = Some (segs', fv)"
      and segs: "segs = spec_segment tag (fst (fs ! i)) @ segs'"
      using Cons.prems by (auto split: if_splits val.splits option.splits)
    have "\<forall>s \<in> set segs'. s \<noteq> []"
      using Cons.IH [OF sub] .
    then show ?thesis
      using segs spec_segment_nonempty by auto
  qed
qed

text \<open>The path the source hands down, started from \<open>par\<close> and extended by segments.\<close>

lemma newEnvPath_segment:
  "\<forall>s \<in> set segs. s \<noteq> [] \<Longrightarrow> par = Join pre ''_'' \<Longrightarrow> \<forall>s \<in> set pre. s \<noteq> [] \<Longrightarrow>
   newEnvPath tag par field = Join (pre @ spec_segment tag field) ''_''"
  by (auto simp: newEnvPath_def spec_segment_def Join_append1 Join_nonempty split: option.splits)

lemma resolve_overlay:
  "loadEnvToStruct L e prefix tag (Join pre ''_'') fs = (fs', None) \<Longrightarrow>
   spec_resolve tag fs p = Some (segs, field, v) \<Longrightarrow> (\<forall>sub. v \<noteq> VStruct sub) \<Longrightarrow>
   \<forall>s \<in> set pre. s \<noteq> [] \<Longrightarrow>
   \<exists>r. spec_resolve tag fs' p = Some (segs, field, r) \<and>
       overlayField L e prefix tag (Join (pre @ segs) ''_'') field v = Inr r"
proof (induction p arbitrary: fs fs' pre segs)
  case Nil
  then show ?case by simp
next
  case (Cons i p)
  from Cons.prems(2) have i: "i < length fs" and ex: "exported (fst (fs ! i))"
    by (auto split: if_splits)
  obtain f0 v0 where fi: "fs ! i = (f0, v0)" by (cases "fs ! i")
  have len: "length fs' = length fs"
    using loadEnvToStruct_length [of L e prefix tag "Join pre ''_''" fs] Cons.prems(1) by simp
  from loop_nth [OF Cons.prems(1) i fi] obtain r0 where
    r0: "fs' ! i = (f0, r0)"
    and step: "(case v0 of
              VStruct sub \<Rightarrow> \<exists>sub'. loadEnvToStruct L e prefix tag (newEnvPath tag (Join pre ''_'') f0) sub = (sub', None) \<and> r0 = VStruct sub'
            | _ \<Rightarrow> overlayField L e prefix tag (Join pre ''_'') f0 v0 = Inr r0)"
    using ex fi by auto
  show ?case
  proof (cases "p = []")
    case True
    then have eq: "segs = []" "f0 = field" "v0 = v"
      using Cons.prems(2) i ex fi by auto
    have "overlayField L e prefix tag (Join pre ''_'') field v = Inr r0"
      using step Cons.prems(3) unfolding eq by (cases v) auto
    then show ?thesis
      using True r0 i ex fi len eq by auto
  next
    case False
    then obtain sub segs' where v0: "v0 = VStruct sub"
      and sub: "spec_resolve tag sub p = Some (segs', field, v)"
      and segs: "segs = spec_segment tag f0 @ segs'"
      using Cons.prems(2) i ex fi by (auto split: val.splits option.splits)
    from step v0 obtain sub' where
      rec: "loadEnvToStruct L e prefix tag (newEnvPath tag (Join pre ''_'') f0) sub = (sub', None)"
      and r0s: "r0 = VStruct sub'" by auto
    have pre': "\<forall>s \<in> set (pre @ spec_segment tag f0). s \<noteq> []"
      using Cons.prems(4) spec_segment_nonempty by auto
    have np: "newEnvPath tag (Join pre ''_'') f0 = Join (pre @ spec_segment tag f0) ''_''"
      using newEnvPath_segment [of "[]" "Join pre ''_''" pre tag f0] Cons.prems(4) by simp
    from Cons.IH [OF rec [unfolded np] sub Cons.prems(3) pre'] obtain r where
      r: "spec_resolve tag sub' p = Some (segs', field, r)"
      and ov: "overlayField L e prefix tag (Join ((pre @ spec_segment tag f0) @ segs') ''_'') field v = Inr r"
      by blast
    show ?thesis
      using False r ov r0 r0s i ex fi len segs by auto
  qed
qed

lemma leaf_key_resolved:
  assumes "loadEnvToStruct L e prefix tag [] fs = (fs', None)"
    and "spec_resolve tag fs p = Some (segs, field, v)"
    and "Lookup (Tag field) tag = Some leaf" and "leaf \<noteq> []"
    and "\<forall>sub. v \<noteq> VStruct sub"
  shows "\<exists>r. spec_resolve tag fs' p = Some (segs, field, r)
           \<and> (if Getenv e (spec_key prefix segs leaf) = [] then r = v
              else setFieldValue L leaf (Getenv e (spec_key prefix segs leaf)) v = Inr r)"
proof -
  have l: "loadEnvToStruct L e prefix tag (Join [] ''_'') fs = (fs', None)"
    using assms(1) by simp
  from resolve_overlay [OF l assms(2) assms(5)] obtain r where
    r: "spec_resolve tag fs' p = Some (segs, field, r)"
    and ov: "overlayField L e prefix tag (Join segs ''_'') field v = Inr r"
    by auto
  have key: "prefix @ fullEnvVar (Join segs ''_'') leaf = spec_key prefix segs leaf"
    by (simp add: fullEnvVar_def spec_key_def)
  have "(if Getenv e (prefix @ fullEnvVar (Join segs ''_'') leaf) = [] then Inr v
         else (case setFieldValue L leaf (Getenv e (prefix @ fullEnvVar (Join segs ''_'') leaf)) v of
                 Inl err \<Rightarrow> Inl err | Inr x \<Rightarrow> reflect_Set v x)) = Inr r"
    using ov assms(3,4) by (simp add: overlayField_def Let_def)
  then have "if Getenv e (spec_key prefix segs leaf) = [] then r = v
        else setFieldValue L leaf (Getenv e (spec_key prefix segs leaf)) v = Inr r"
    unfolding key by (auto split: if_splits dest: overlay_set)
  then show ?thesis using r by blast
qed

text \<open>
  Claim C3. After a successful overlay, a tagged leaf field that the resolver reaches
  holds what the switch makes of the variable named prefix + parent path + "_" + tag
  when the parent path is not empty and prefix + tag otherwise, or its old value when
  that variable is empty. The parent path is made of the tag values of the struct
  fields on the way, joined by underscores: a struct field without a tag, or with an
  empty one, is passed through and adds nothing.
\<close>

theorem leaf_key_is_prefix_parent_path_tag:
  assumes "loadEnvToStruct L e prefix tag [] fs = (fs', None)"
    and "spec_resolve tag fs p = Some (segs, field, v)"
    and "Lookup (Tag field) tag = Some leaf" and "leaf \<noteq> []"
    and "\<forall>sub. v \<noteq> VStruct sub"
  shows "\<exists>r key. key = (if Join segs ''_'' = [] then prefix @ leaf
                         else prefix @ Join segs ''_'' @ ''_'' @ leaf)
           \<and> spec_resolve tag fs' p = Some (segs, field, r)
           \<and> (if Getenv e key = [] then r = v
              else setFieldValue L leaf (Getenv e key) v = Inr r)"
  using leaf_key_resolved [OF assms] by (auto simp: spec_key_def)

theorem leaf_key_is_prefix_parent_path_tag_witness:
  "spec_key ''APP_'' [''DB''] ''HOST'' = ''APP_DB_HOST'' \<and> spec_key ''APP_'' [] ''VALUE'' = ''APP_VALUE''
   \<and> spec_resolve ''env''
        (fst (loadEnvToStruct sampleLib [''APP_DB_HOST'' \<mapsto> ''db.example'', ''APP_VALUE'' \<mapsto> ''nested-value''] ''APP_'' ''env'' []
           [(envField ''Database'' ''DB'', VStruct [(envField ''Host'' ''HOST'', VString ''localhost'')]),
            (\<lparr>Name = ''Nested'', exported = True, Tag = []\<rparr>, VStruct [(envField ''Value'' ''VALUE'', VString ''default-value'')])]))
        [0, 0]
      = Some ([''DB''], envField ''Host'' ''HOST'', VString ''db.example'')
   \<and> spec_resolve ''env''
        (fst (loadEnvToStruct sampleLib [''APP_DB_HOST'' \<mapsto> ''db.example'', ''APP_VALUE'' \<mapsto> ''nested-value''] ''APP_'' ''env'' []
           [(envField ''Database'' ''DB'', VStruct [(envField ''Host'' ''HOST'', VString ''localhost'')]),
            (\<lparr>Name = ''Nested'', exported = True, Tag = []\<rparr>, VStruct [(envField ''Value'' ''VALUE'', VString ''default-value'')])]))
        [1, 0]
      = Some ([], envField ''Value'' ''VALUE'', VString ''nested-value'')"
proof -
  let ?e = "[''APP_DB_HOST'' \<mapsto> ''db.example'', ''APP_VALUE'' \<mapsto> ''nested-value'']"
  let ?fs = "[(envField ''Database'' ''DB'', VStruct [(envField ''Host'' ''HOST'', VString ''localhost'')]),
            (\<lparr>Name = ''Nested'', exported = True, Tag = []\<rparr>, VStruct [(envField ''Value'' ''VALUE'', VString ''default-value'')])]"
  let ?fs' = "[(envField ''Database'' ''DB'', VStruct [(envField ''Host'' ''HOST'', VString ''db.example'')]),
            (\<lparr>Name = ''Nested'', exported = True, Tag = []\<rparr>, VStruct [(envField ''Value'' ''VALUE'', VString ''nested-value'')])]"
  have run: "loadEnvToStruct sampleLib ?e ''APP_'' ''env'' [] ?fs = (?fs', None)"
    by (simp add: envField_def overlayField_def Lookup_def newEnvPath_def fullEnvVar_def Getenv_def)
  have res: "spec_resolve ''env'' ?fs [0, 0] = Some ([''DB''], envField ''Host'' ''HOST'', VString ''localhost'')"
    by (simp add: envField_def spec_segment_def Lookup_def)
  have tag: "Lookup (Tag (envField ''Host'' ''HOST'')) ''env'' = Some ''HOST''"
    by (simp add: envField_def Lookup_def)
  have k1: "spec_key ''APP_'' [''DB''] ''HOST'' = ''APP_DB_HOST''"
    and k2: "spec_key ''APP_'' [] ''VALUE'' = ''APP_VALUE''"
    by (simp_all add: spec_key_def)
  from leaf_key_is_prefix_parent_path_tag [OF run res tag]
  have "\<exists>r. spec_resolve ''env'' ?fs' [0, 0] = Some ([''DB''], envField ''Host'' ''HOST'', r)
           \<and> (if Getenv ?e ''APP_DB_HOST'' = [] then r = VString ''localhost''
              else setFieldValue sampleLib ''HOST'' (Getenv ?e ''APP_DB_HOST'') (VString ''localhost'') = Inr r)"
    by simp
  then have 1: "spec_resolve ''env'' ?fs' [0, 0] = Some ([''DB''], envField ''Host'' ''HOST'', VString ''db.example'')"
    by (auto simp: Getenv_def)
  have 2: "spec_resolve ''env'' ?fs' [1, 0] = Some ([], envField ''Value'' ''VALUE'', VString ''nested-value'')"
    by (simp add: envField_def spec_segment_def Lookup_def)
  show ?thesis
    unfolding run using k1 k2 1 2 by simp
qed

subsection \<open>The ancestor search\<close>

lemma spec_first_append:
  "spec_first (cs @ ds) key = (case spec_first cs key of Some v \<Rightarrow> Some v | None \<Rightarrow> spec_first ds key)"
  by (induction cs key rule: spec_first.induct) (auto split: option.splits)

lemma spec_loaded_append: "spec_loaded (spec_loaded e cs) ds = spec_loaded e (cs @ ds)"
  by (auto simp: spec_loaded_def spec_first_append fun_eq_iff split: option.splits)

lemma spec_loaded_Parsed: "spec_loaded (godotenv_Load m e) cs = spec_loaded e (Parsed m # cs)"
  by (auto simp: spec_loaded_def godotenv_Load_def map_add_def fun_eq_iff split: option.splits)

lemma spec_loaded_skip:
  "c = Missing \<or> c = Unloadable \<Longrightarrow> spec_loaded e (c # cs) = spec_loaded e cs"
  by (auto simp: spec_loaded_def fun_eq_iff split: option.splits)

lemma spec_loaded_Nil: "spec_loaded e [] = e"
  by (auto simp: spec_loaded_def fun_eq_iff split: option.splits)

lemma tryFiles_spec:
  "tryFiles w dir names (e, found) =
     (spec_loaded e (map (envFileAt w dir) names), found \<or> spec_found (map (envFileAt w dir) names))"
proof (induction names arbitrary: e found)
  case Nil
  then show ?case by (simp add: spec_loaded_Nil spec_found_def)
next
  case (Cons n names)
  show ?case
  proof (cases "envFileAt w dir n")
    case Missing
    then show ?thesis using Cons [of e found] by (auto simp: spec_loaded_skip spec_found_def)
  next
    case Unloadable
    then show ?thesis using Cons [of e found] by (auto simp: spec_loaded_skip spec_found_def)
  next
    case (Parsed m)
    then show ?thesis
      using Cons [of "godotenv_Load m e" True]
      by (auto simp: spec_loaded_Parsed spec_found_def spec_loaded_append [symmetric])
  qed
qed

lemma spec_ancestors_Nil: "spec_ancestors [] = [[]]"
  by (simp add: spec_ancestors_def)

lemma spec_ancestors_step: "dir \<noteq> [] \<Longrightarrow> spec_ancestors dir = dir # spec_ancestors (butlast dir)"
proof -
  assume ne: "dir \<noteq> []"
  have "map (\<lambda>n. take n (butlast dir)) (rev [0..<length dir]) = map (\<lambda>n. take n dir) (rev [0..<length dir])"
    by (rule map_cong) (auto simp: take_butlast)
  then show ?thesis
    using ne by (simp add: spec_ancestors_def)
qed

lemma spec_ancestors_nth:
  "n \<le> length dir \<Longrightarrow> spec_ancestors dir ! n = take (length dir - n) dir"
  by (simp add: spec_ancestors_def rev_nth del: upt_Suc)

lemma spec_ancestors_length: "length (spec_ancestors dir) = Suc (length dir)"
  by (simp add: spec_ancestors_def)

lemma spec_found_append: "spec_found (cs @ ds) = (spec_found cs \<or> spec_found ds)"
  by (auto simp: spec_found_def)

lemma ancestorLoop_spec:
  "ancestorLoop w filesToTry dir (e, found) =
     (spec_loaded e (spec_candidates w dir filesToTry), found \<or> spec_found (spec_candidates w dir filesToTry))"
proof (induction dir arbitrary: e found rule: length_induct)
  case (1 dir)
  show ?case
  proof (cases "dir = []")
    case True
    then show ?thesis
      by (subst ancestorLoop.simps)
         (simp add: Dir_def tryFiles_spec spec_candidates_def spec_ancestors_Nil)
  next
    case False
    then have less: "length (butlast dir) < length dir"
      by (cases dir rule: rev_cases) auto
    have ne: "butlast dir \<noteq> dir"
    proof
      assume "butlast dir = dir"
      then have "length (butlast dir) = length dir" by (rule arg_cong)
      then show False using less by linarith
    qed
    have cand: "spec_candidates w dir filesToTry =
        map (envFileAt w dir) filesToTry @ spec_candidates w (butlast dir) filesToTry"
      using False by (simp add: spec_candidates_def spec_ancestors_step)
    show ?thesis
      using 1 [rule_format, OF less] ne
      by (subst ancestorLoop.simps)
         (auto simp: Dir_def tryFiles_spec cand spec_loaded_append spec_found_append Let_def)
  qed
qed

text \<open>
  Claim C9. When the working directory can be read, the search never fails. It looks
  at the working directory first, then at each parent, the root last, trying every
  file name in each; the environment it leaves keeps every variable that was set
  before, and gives any other variable the value of the first file, in that order,
  that loads and defines it: a file farther up does not replace it. That no file is
  found is no error (the flag is then false).
\<close>

theorem ancestor_search_closer_first:
  assumes "Getwd w = Some currentDir"
  shows "loadEnvFromAncestors w filesToTry e =
           Inr (spec_loaded e (spec_candidates w currentDir filesToTry),
                spec_found (spec_candidates w currentDir filesToTry))
       \<and> spec_ancestors currentDir ! 0 = currentDir
       \<and> last (spec_ancestors currentDir) = []
       \<and> (\<forall>n < length currentDir. spec_ancestors currentDir ! Suc n = Dir (spec_ancestors currentDir ! n))
       \<and> (\<forall>key v. e key = Some v \<longrightarrow>
             spec_loaded e (spec_candidates w currentDir filesToTry) key = Some v)
       \<and> (\<forall>cs m ds key v. spec_candidates w currentDir filesToTry = cs @ Parsed m # ds \<longrightarrow>
             e key = None \<longrightarrow> spec_first cs key = None \<longrightarrow> m key = Some v \<longrightarrow>
             spec_loaded e (spec_candidates w currentDir filesToTry) key = Some v)"
proof -
  have 1: "loadEnvFromAncestors w filesToTry e =
           Inr (spec_loaded e (spec_candidates w currentDir filesToTry),
                spec_found (spec_candidates w currentDir filesToTry))"
    using assms by (simp add: loadEnvFromAncestors_def ancestorLoop_spec)
  have 2: "spec_ancestors currentDir ! 0 = currentDir"
    by (simp add: spec_ancestors_nth)
  have "spec_ancestors currentDir \<noteq> []"
    using spec_ancestors_length [of currentDir] by auto
  then have "last (spec_ancestors currentDir) = spec_ancestors currentDir ! length currentDir"
    using last_conv_nth [of "spec_ancestors currentDir"] by (simp add: spec_ancestors_length)
  then have 3: "last (spec_ancestors currentDir) = []"
    by (simp add: spec_ancestors_nth)
  have 4: "\<forall>n < length currentDir. spec_ancestors currentDir ! Suc n = Dir (spec_ancestors currentDir ! n)"
    by (simp add: spec_ancestors_nth Dir_def butlast_take)
  have 5: "\<forall>key v. e key = Some v \<longrightarrow>
             spec_loaded e (spec_candidates w currentDir filesToTry) key = Some v"
    by (simp add: spec_loaded_def)
  have 6: "\<forall>cs m ds key v. spec_candidates w currentDir filesToTry = cs @ Parsed m # ds \<longrightarrow>
             e key = None \<longrightarrow> spec_first cs key = None \<longrightarrow> m key = Some v \<longrightarrow>
             spec_loaded e (spec_candidates w currentDir filesToTry) key = Some v"
    by (auto simp: spec_loaded_def spec_first_append)
  show ?thesis using 1 2 3 4 5 6 by blast
qed

lemma spec_candidates_no_files: "spec_candidates w dir [] = []"
  by (simp add: spec_candidates_def)

lemma loadEnvFromAncestors_no_files:
  "Getwd w = Some dir \<Longrightarrow> loadEnvFromAncestors w [] e = Inr (e, False)"
  by (simp add: loadEnvFromAncestors_def ancestorLoop_spec spec_candidates_no_files spec_loaded_Nil spec_found_def)

theorem ancestor_search_closer_first_witness:
  "(\<exists>e'. loadEnvFromAncestors fileWorld [''.env''] (environ fileWorld) = Inr (e', True)
         \<and> e' ''TEST_PORT'' = Some ''6060''
         \<and> e' ''TEST_APP_NAME'' = Some ''closer''
         \<and> e' ''TEST_LOAD_FACTOR'' = Some ''7.7'')
   \<and> loadEnvFromAncestors sampleWorld [''.env''] Map.empty = Inr (Map.empty, False)"
proof -
  have c1: "spec_candidates fileWorld [''home'', ''app'', ''sub''] [''.env''] =
      [Missing,
       Parsed [''TEST_PORT'' \<mapsto> ''1111'', ''TEST_APP_NAME'' \<mapsto> ''closer''],
       Parsed [''TEST_APP_NAME'' \<mapsto> ''farther'', ''TEST_LOAD_FACTOR'' \<mapsto> ''7.7''],
       Missing]"
    by (simp add: spec_candidates_def spec_ancestors_def fileWorld_def)
  have c2: "spec_candidates sampleWorld [''home'', ''app''] [''.env''] = [Missing, Missing, Missing]"
    by (simp add: spec_candidates_def spec_ancestors_def sampleWorld_def)
  have g1: "Getwd fileWorld = Some [''home'', ''app'', ''sub'']" by (simp add: fileWorld_def)
  have g2: "Getwd sampleWorld = Some [''home'', ''app'']" by (simp add: sampleWorld_def)
  let ?cs = "[Missing,
       Parsed [''TEST_PORT'' \<mapsto> ''1111'', ''TEST_APP_NAME'' \<mapsto> ''closer''],
       Parsed [''TEST_APP_NAME'' \<mapsto> ''farther'', ''TEST_LOAD_FACTOR'' \<mapsto> ''7.7''],
       Missing]"
  have eq: "loadEnvFromAncestors fileWorld [''.env''] (environ fileWorld) =
      Inr (spec_loaded (environ fileWorld) ?cs, spec_found ?cs)"
    using ancestor_search_closer_first [OF g1, of "[''.env'']" "environ fileWorld"]
    unfolding c1 by blast
  have f: "spec_found ?cs"
    by (auto simp: spec_found_def)
  have v: "spec_loaded (environ fileWorld) ?cs ''TEST_PORT'' = Some ''6060''"
    "spec_loaded (environ fileWorld) ?cs ''TEST_APP_NAME'' = Some ''closer''"
    "spec_loaded (environ fileWorld) ?cs ''TEST_LOAD_FACTOR'' = Some ''7.7''"
    by (simp_all add: spec_loaded_def fileWorld_def)
  have 1: "\<exists>e'. loadEnvFromAncestors fileWorld [''.env''] (environ fileWorld) = Inr (e', True)
         \<and> e' ''TEST_PORT'' = Some ''6060''
         \<and> e' ''TEST_APP_NAME'' = Some ''closer''
         \<and> e' ''TEST_LOAD_FACTOR'' = Some ''7.7''"
    using eq f v by simp
  have eq2: "loadEnvFromAncestors sampleWorld [''.env''] Map.empty =
      Inr (spec_loaded Map.empty [Missing, Missing, Missing], spec_found [Missing, Missing, Missing])"
    using ancestor_search_closer_first [OF g2, of "[''.env'']" Map.empty]
    unfolding c2 by blast
  have 2: "loadEnvFromAncestors sampleWorld [''.env''] Map.empty = Inr (Map.empty, False)"
    unfolding eq2 by (simp add: spec_loaded_skip spec_loaded_Nil spec_found_def)
  show ?thesis using 1 2 by blast
qed

subsection \<open>Precedence of the sources\<close>







subsection \<open>What a failed \<^verbatim>\<open>Build\<close> returns\<close>

lemma fileOverlay_cases:
  "fileOverlay L w fp t = (t1, ferr, st) \<Longrightarrow>
     (ferr = None) \<or> (\<exists>path. ferr = Some (ReadFileFailed path) \<and> t1 = t) \<or> ferr = Some ParseFileFailed"
  by (auto simp: fileOverlay_def split: option.splits if_splits prod.splits)

lemma wrap_not_nil: "wrap c t \<noteq> ByPointer None"
  by (cases c) auto

text \<open>
  Claim C1, as amended. When the default is a nil pointer, the value returned with
  the error is the zero value of the type (the nil pointer). On every other failure
  the value returned is the working target as it stood: for a pointer type never the
  nil pointer; after a file-read error the clone of the default; after a file-parse
  error or a failed search for environment files the target as the file step left it;
  after a coercion or validation error the target as the environment overlay left it.
\<close>

theorem Build_failure_returns_working_target:
  "(source (config b) = None \<longrightarrow>
      failure (Build L w b) = Some NilPointer \<and> returned (Build L w b) = zeroT (config b))
   \<and> (\<forall>src err. source (config b) = Some src \<longrightarrow> failure (Build L w b) = Some err \<longrightarrow>
        err \<noteq> NilPointer \<and> returned (Build L w b) \<noteq> ByPointer None
        \<and> ((\<exists>path. err = ReadFileFailed path) \<longrightarrow> returned (Build L w b) = wrap (config b) src)
        \<and> (err = ParseFileFailed \<or> (\<exists>c. err = LoadEnvFailed c) \<longrightarrow>
              returned (Build L w b) = wrap (config b) (fst (fileOverlay L w (filepath b) src)))
        \<and> ((\<exists>c. err = OverrideFailed c) \<or> err = InvalidConfiguration \<longrightarrow>
              returned (Build L w b) =
                wrap (config b)
                  (fst (loadEnvToStruct L (environment (Build L w b)) (envPrefix b) (envTag b) []
                     (fst (fileOverlay L w (filepath b) src))))))"
proof -
  have nil: "source (config b) = None \<longrightarrow>
      failure (Build L w b) = Some NilPointer \<and> returned (Build L w b) = zeroT (config b)"
    by (simp add: Build_def)
  have rest: "\<And>src err. source (config b) = Some src \<Longrightarrow> failure (Build L w b) = Some err \<Longrightarrow>
        err \<noteq> NilPointer \<and> returned (Build L w b) \<noteq> ByPointer None
        \<and> ((\<exists>path. err = ReadFileFailed path) \<longrightarrow> returned (Build L w b) = wrap (config b) src)
        \<and> (err = ParseFileFailed \<or> (\<exists>c. err = LoadEnvFailed c) \<longrightarrow>
              returned (Build L w b) = wrap (config b) (fst (fileOverlay L w (filepath b) src)))
        \<and> ((\<exists>c. err = OverrideFailed c) \<or> err = InvalidConfiguration \<longrightarrow>
              returned (Build L w b) =
                wrap (config b)
                  (fst (loadEnvToStruct L (environment (Build L w b)) (envPrefix b) (envTag b) []
                     (fst (fileOverlay L w (filepath b) src)))))"
  proof -
    fix src err
    assume src: "source (config b) = Some src" and err: "failure (Build L w b) = Some err"
    obtain t1 ferr st where fo: "fileOverlay L w (filepath b) src = (t1, ferr, st)"
      by (cases "fileOverlay L w (filepath b) src") auto
    from fileOverlay_cases [OF fo] show "?thesis src err"
      using src err fo
      by (auto simp: Build_def copier_Copy_def wrap_not_nil
               split: option.splits sum.splits prod.splits if_splits)
  qed
  show ?thesis using nil rest by blast
qed

lemma rejected_build:
  "Build rejectingLib sampleWorld (New (ByPointer (Some [(envField ''AppName'' ''APP_NAME'', VString ''ab'')])))
   = \<lparr>returned = ByPointer (Some [(envField ''AppName'' ''APP_NAME'', VString ''ab'')]),
      failure = Some InvalidConfiguration,
      environment = environ sampleWorld,
      steps = [SClone, SEnvFiles, SEnvOverlay, SValidate]\<rparr>"
proof -
  have anc: "loadEnvFromAncestors sampleWorld [] (environ sampleWorld) = Inr (environ sampleWorld, False)"
    by (rule loadEnvFromAncestors_no_files [of _ "[''home'', ''app'']"]) (simp add: sampleWorld_def)
  have ov: "loadEnvToStruct rejectingLib (environ sampleWorld) [] ''env'' [] [(envField ''AppName'' ''APP_NAME'', VString ''ab'')]
      = ([(envField ''AppName'' ''APP_NAME'', VString ''ab'')], None)"
    by (simp add: envField_def overlayField_def Lookup_def fullEnvVar_def Getenv_def sampleWorld_def)
  have val: "validate rejectingLib = (\<lambda>t. False)"
    by (simp add: rejectingLib_def)
  show ?thesis
    unfolding Build_def
    by (simp add: New_def copier_Copy_def fileOverlay_def anc ov val del: loadEnvToStruct.simps)
qed

lemma half_merged_build:
  "Build sampleLib (sampleWorld\<lparr>environ := [''TEST_APP_NAME'' \<mapsto> ''env-app'', ''TEST_PORT'' \<mapsto> ''not-an-int'']\<rparr>)
     (EnvPrefix ''TEST_'' (New (ByValue [(envField ''AppName'' ''APP_NAME'', VString ''test-app''),
                                        (envField ''Port'' ''PORT'', VInt KInt 8080)])))
   = \<lparr>returned = ByValue [(envField ''AppName'' ''APP_NAME'', VString ''env-app''),
                          (envField ''Port'' ''PORT'', VInt KInt 8080)],
      failure = Some (OverrideFailed (InvalidInteger ''PORT'' (NumError ''ParseInt'' ''not-an-int'' ErrSyntax))),
      environment = [''TEST_APP_NAME'' \<mapsto> ''env-app'', ''TEST_PORT'' \<mapsto> ''not-an-int''],
      steps = [SClone, SEnvFiles, SEnvOverlay]\<rparr>"
proof -
  let ?w = "sampleWorld\<lparr>environ := [''TEST_APP_NAME'' \<mapsto> ''env-app'', ''TEST_PORT'' \<mapsto> ''not-an-int'']\<rparr>"
  have anc: "loadEnvFromAncestors ?w [] (environ ?w) = Inr (environ ?w, False)"
    by (rule loadEnvFromAncestors_no_files [of _ "[''home'', ''app'']"]) (simp add: sampleWorld_def)
  have ov: "loadEnvToStruct sampleLib [''TEST_APP_NAME'' \<mapsto> ''env-app'', ''TEST_PORT'' \<mapsto> ''not-an-int''] ''TEST_'' ''env'' []
        [(envField ''AppName'' ''APP_NAME'', VString ''test-app''), (envField ''Port'' ''PORT'', VInt KInt 8080)]
      = ([(envField ''AppName'' ''APP_NAME'', VString ''env-app''), (envField ''Port'' ''PORT'', VInt KInt 8080)],
         Some (InvalidInteger ''PORT'' (NumError ''ParseInt'' ''not-an-int'' ErrSyntax)))"
    by (simp add: envField_def overlayField_def Lookup_def fullEnvVar_def Getenv_def
          ParseInt_def ParseUint_def isDigit_def)
  have env: "environ ?w = [''TEST_APP_NAME'' \<mapsto> ''env-app'', ''TEST_PORT'' \<mapsto> ''not-an-int'']"
    by simp
  show ?thesis
    unfolding Build_def
    by (simp add: New_def EnvPrefix_def copier_Copy_def fileOverlay_def anc [unfolded env] ov
          del: loadEnvToStruct.simps)
qed

theorem Build_failure_returns_working_target_witness:
  "failure (Build rejectingLib sampleWorld (New (ByPointer (Some [(envField ''AppName'' ''APP_NAME'', VString ''ab'')]))))
     = Some InvalidConfiguration
   \<and> returned (Build rejectingLib sampleWorld (New (ByPointer (Some [(envField ''AppName'' ''APP_NAME'', VString ''ab'')]))))
     = ByPointer (Some [(envField ''AppName'' ''APP_NAME'', VString ''ab'')])"
  using Build_failure_returns_working_target
    [of "New (ByPointer (Some [(envField ''AppName'' ''APP_NAME'', VString ''ab'')]))" rejectingLib sampleWorld]
  by (simp add: rejected_build)

text \<open>
  Claim C1 as stated fails. A pointer default whose validation fails comes back as a
  pointer to the merged struct, not as the nil pointer; and a struct default with one
  variable that parses and a later one that does not comes back half merged (the first
  field overlaid), not as the zero struct.
\<close>

theorem failed_Build_returns_nonzero_counterexample:
  "failure (Build rejectingLib sampleWorld (New (ByPointer (Some [(envField ''AppName'' ''APP_NAME'', VString ''ab'')]))))
     = Some InvalidConfiguration
   \<and> returned (Build rejectingLib sampleWorld (New (ByPointer (Some [(envField ''AppName'' ''APP_NAME'', VString ''ab'')]))))
     = ByPointer (Some [(envField ''AppName'' ''APP_NAME'', VString ''ab'')])
   \<and> zeroT (config (New (ByPointer (Some [(envField ''AppName'' ''APP_NAME'', VString ''ab'')])))) = ByPointer None
   \<and> failure (Build sampleLib (sampleWorld\<lparr>environ := [''TEST_APP_NAME'' \<mapsto> ''env-app'', ''TEST_PORT'' \<mapsto> ''not-an-int'']\<rparr>)
        (EnvPrefix ''TEST_'' (New (ByValue [(envField ''AppName'' ''APP_NAME'', VString ''test-app''),
                                           (envField ''Port'' ''PORT'', VInt KInt 8080)]))))
     = Some (OverrideFailed (InvalidInteger ''PORT'' (NumError ''ParseInt'' ''not-an-int'' ErrSyntax)))
   \<and> returned (Build sampleLib (sampleWorld\<lparr>environ := [''TEST_APP_NAME'' \<mapsto> ''env-app'', ''TEST_PORT'' \<mapsto> ''not-an-int'']\<rparr>)
        (EnvPrefix ''TEST_'' (New (ByValue [(envField ''AppName'' ''APP_NAME'', VString ''test-app''),
                                           (envField ''Port'' ''PORT'', VInt KInt 8080)]))))
     = ByValue [(envField ''AppName'' ''APP_NAME'', VString ''env-app''), (envField ''Port'' ''PORT'', VInt KInt 8080)]
   \<and> zeroT (config (EnvPrefix ''TEST_'' (New (ByValue [(envField ''AppName'' ''APP_NAME'', VString ''test-app''),
                                           (envField ''Port'' ''PORT'', VInt KInt 8080)]))))
     = ByValue [(envField ''AppName'' ''APP_NAME'', VString []), (envField ''Port'' ''PORT'', VInt KInt 0)]"
proof -
  have z1: "zeroT (config (New (ByPointer (Some [(envField ''AppName'' ''APP_NAME'', VString ''ab'')])))) = ByPointer None"
    by (simp add: New_def)
  have z2: "zeroT (config (EnvPrefix ''TEST_'' (New (ByValue [(envField ''AppName'' ''APP_NAME'', VString ''test-app''),
                                           (envField ''Port'' ''PORT'', VInt KInt 8080)]))))
     = ByValue [(envField ''AppName'' ''APP_NAME'', VString []), (envField ''Port'' ''PORT'', VInt KInt 0)]"
    by (simp add: New_def EnvPrefix_def zeroFields_def)
  show ?thesis
    unfolding z1 z2 by (simp add: rejected_build half_merged_build)
qed

subsection \<open>The default after \<^verbatim>\<open>Build\<close>\<close>

text \<open>
  The clone on cells agrees with the clone on values: read through the store, the
  target holds what the source holds.
\<close>

lemma set_cell_id: "set_cell c = c"
proof (induction c)
  case (Sub fs)
  have "map (\<lambda>(f, c). (f, set_cell c)) fs = map (\<lambda>x. x) fs"
    using Sub by (intro map_cong) (auto simp: snds.simps)
  then show ?case by simp
qed simp_all

lemma copier_Copy_cells_contents:
  "Some (loadFields A (copier_Copy_cells to from)) = copier_Copy (loadFields A to) (loadFields A from)"
  by (simp add: copier_Copy_cells_def copier_Copy_def loadFields_def set_cell_id)

text \<open>
  Claim C5 fails on the code. The target that the clone fills from a default with a
  \<^verbatim>\<open>[]string\<close> field holds the default's own header (address 7 below), so the two
  slices share their array: assigning to an element of the returned configuration's
  slice changes what the default's field holds, here from \<^verbatim>\<open>default\<close> to
  \<^verbatim>\<open>changed\<close>.
\<close>

theorem clone_shares_slice_arrays:
  "copier_Copy_cells [(envField ''Tags'' ''TAGS'', Header \<lparr>data = 0, len = 0\<rparr>)]
      [(envField ''Tags'' ''TAGS'', Header \<lparr>data = 7, len = 1\<rparr>)]
     = [(envField ''Tags'' ''TAGS'', Header \<lparr>data = 7, len = 1\<rparr>)]
   \<and> loadFields (\<lambda>a. if a = 7 then [''default''] else []) [(envField ''Tags'' ''TAGS'', Header \<lparr>data = 7, len = 1\<rparr>)]
     = [(envField ''Tags'' ''TAGS'', VStrings [''default''])]
   \<and> (\<exists>A'. storeElem (\<lambda>a. if a = 7 then [''default''] else []) \<lparr>data = 7, len = 1\<rparr> 0 ''changed'' = Some A'
          \<and> loadFields A' [(envField ''Tags'' ''TAGS'', Header \<lparr>data = 7, len = 1\<rparr>)]
             = [(envField ''Tags'' ''TAGS'', VStrings [''changed''])])"
  by (simp add: copier_Copy_cells_def loadFields_def storeElem_def)

end
